theory Spec2Isabelle
  imports Complex_Main "HOL-Library.Multiset"
begin

section \<open>JavaScript numbers\<close>

text \<open>
  The harness computes with JavaScript numbers, that is with binary64 floating point.
  Finite values are modelled as reals; the three special values that the harness can
  produce by dividing by zero or by taking \<open>Math.max\<close> / \<open>Math.min\<close> of nothing
  are kept as constructors of their own. Signed zeros are not distinguished: every zero of
  the modelled computations is a length, a difference of two equal clock readings or a sum
  started from 0.

  Rounding is modelled, by \<open>fl64\<close> below, in the two computations whose result is then
  compared exactly: the product under \<open>Math.ceil\<close> in \<open>percentile\<close>, which decides
  an array index, and the running sum and the quotient of the average latency, which is
  set against the minimum and the maximum. The other quotients and products (throughput,
  error rate, ratios) are reported values; they are computed in exact arithmetic, which
  they match up to the rounding of one or two operations.
\<close>

datatype jsnum = Num real | PosInfinity | NegInfinity | NaN

fun js_neg :: "jsnum \<Rightarrow> jsnum" where
  "js_neg (Num a) = Num (- a)"
| "js_neg PosInfinity = NegInfinity"
| "js_neg NegInfinity = PosInfinity"
| "js_neg NaN = NaN"

text \<open>\<open>x / y\<close>\<close>

fun js_div :: "jsnum \<Rightarrow> jsnum \<Rightarrow> jsnum" where
  "js_div (Num a) (Num b) =
     (if b \<noteq> 0 then Num (a / b)
      else if a = 0 then NaN
      else if 0 < a then PosInfinity else NegInfinity)"
| "js_div NaN y = NaN"
| "js_div x NaN = NaN"
| "js_div (Num a) y = Num 0"
| "js_div x (Num b) = (if 0 \<le> b then x else js_neg x)"
| "js_div x y = NaN"

text \<open>\<open>x * y\<close>\<close>

fun js_mul :: "jsnum \<Rightarrow> jsnum \<Rightarrow> jsnum" where
  "js_mul (Num a) (Num b) = Num (a * b)"
| "js_mul NaN y = NaN"
| "js_mul x NaN = NaN"
| "js_mul (Num a) y = (if a = 0 then NaN else if 0 < a then y else js_neg y)"
| "js_mul x (Num b) = (if b = 0 then NaN else if 0 < b then x else js_neg x)"
| "js_mul x y = (if x = y then PosInfinity else NegInfinity)"




text \<open>\<open>x || y\<close> on numbers: \<open>0\<close> and \<open>NaN\<close> are falsy.\<close>

definition js_or :: "jsnum \<Rightarrow> jsnum \<Rightarrow> jsnum" where
  "js_or x y = (if x = Num 0 \<or> x = NaN then y else x)"

text \<open>
  \<open>Math.max(...xs)\<close> and \<open>Math.min(...xs)\<close> of finite numbers (the engine's limit
  on the number of spread arguments is not modelled).
\<close>

definition Math_max :: "real list \<Rightarrow> jsnum" where
  "Math_max xs = (case xs of [] \<Rightarrow> NegInfinity | x # rest \<Rightarrow> Num (fold max rest x))"

definition Math_min :: "real list \<Rightarrow> jsnum" where
  "Math_min xs = (case xs of [] \<Rightarrow> PosInfinity | x # rest \<Rightarrow> Num (fold min rest x))"

section \<open>Binary64 rounding\<close>

text \<open>Rounding to the nearest integer, ties to the even one.\<close>

definition round_half_even :: "real \<Rightarrow> int" where
  "round_half_even q =
     (let f = \<lfloor>q\<rfloor>; d = q - of_int f
      in if d < 1 / 2 then f else if 1 / 2 < d then f + 1 else if even f then f else f + 1)"

text \<open>
  The binade of a positive real \<open>x\<close> is the exponent \<open>e\<close> with
  \<open>2^e \<le> x < 2^(e+1)\<close>, found by halving or doubling \<open>x\<close> into \<open>[1, 2)\<close>.
\<close>

function binade_up :: "real \<Rightarrow> int" where
  "binade_up x = (if 2 \<le> x then binade_up (x / 2) + 1 else 0)"
  by pat_completeness auto
termination
proof (relation "measure (\<lambda>x. nat \<lceil>x\<rceil>)")
  show "wf (measure (\<lambda>x::real. nat \<lceil>x\<rceil>))" by simp
next
  fix x :: real
  assume "2 \<le> x"
  then have "2 \<le> \<lceil>x\<rceil>" by linarith
  then have "2 \<le> real_of_int \<lceil>x\<rceil>" using of_int_le_iff [of 2 "\<lceil>x\<rceil>", where ?'a = real] by simp
  moreover have "x \<le> of_int \<lceil>x\<rceil>" by (rule le_of_int_ceiling)
  ultimately have "x / 2 \<le> of_int \<lceil>x\<rceil> - 1" by linarith
  then have "x / 2 \<le> of_int (\<lceil>x\<rceil> - 1)" by (simp only: of_int_diff of_int_1)
  then have "\<lceil>x / 2\<rceil> \<le> \<lceil>x\<rceil> - 1" by (rule ceiling_le)
  moreover have "0 < \<lceil>x\<rceil>" using \<open>2 \<le> x\<close> by linarith
  ultimately show "(x / 2, x) \<in> measure (\<lambda>x. nat \<lceil>x\<rceil>)" by simp
qed

function binade_down :: "real \<Rightarrow> int" where
  "binade_down x = (if 0 < x \<and> x < 1 then binade_down (2 * x) - 1 else 0)"
  by pat_completeness auto
termination
proof (relation "measure (\<lambda>x. nat \<lceil>1 / x\<rceil>)")
  show "wf (measure (\<lambda>x::real. nat \<lceil>1 / x\<rceil>))" by simp
next
  fix x :: real
  assume a: "0 < x \<and> x < 1"
  define y where "y = 1 / x"
  have y: "1 < y" using a by (simp add: y_def)
  then have "2 \<le> \<lceil>y\<rceil>" by linarith
  then have "2 \<le> real_of_int \<lceil>y\<rceil>" using of_int_le_iff [of 2 "\<lceil>y\<rceil>", where ?'a = real] by simp
  moreover have "y \<le> of_int \<lceil>y\<rceil>" by (rule le_of_int_ceiling)
  ultimately have "y / 2 \<le> of_int \<lceil>y\<rceil> - 1" by linarith
  then have "y / 2 \<le> of_int (\<lceil>y\<rceil> - 1)" by (simp only: of_int_diff of_int_1)
  then have "\<lceil>y / 2\<rceil> \<le> \<lceil>y\<rceil> - 1" by (rule ceiling_le)
  moreover have "1 / (2 * x) = y / 2" by (simp add: y_def)
  moreover have "0 < \<lceil>y\<rceil>" using y by linarith
  ultimately show "(2 * x, x) \<in> measure (\<lambda>x. nat \<lceil>1 / x\<rceil>)"
    by (simp add: y_def mult.commute)
qed

definition binade :: "real \<Rightarrow> int" where
  "binade x = (if 1 \<le> x then binade_up x else binade_down x)"

text \<open>
  \<open>fl64 x\<close> is the binary64 number nearest to \<open>x\<close>, ties to even: \<open>x\<close> is
  rounded to 53 significant bits. The exponent is not bounded (no overflow to infinity, no
  subnormal numbers): the ranks, lengths and milliseconds rounded here are far from
  binary64's limits.
\<close>

definition fl64 :: "real \<Rightarrow> real" where
  "fl64 x =
     (if x = 0 then 0
      else let ulp = power_int 2 (binade \<bar>x\<bar> - 52)
           in sgn x * of_int (round_half_even (\<bar>x\<bar> / ulp)) * ulp)"

declare binade_up.simps [simp del] binade_down.simps [simp del]

text \<open>\<open>x / y\<close> rounded to binary64.\<close>

definition js_div64 :: "jsnum \<Rightarrow> jsnum \<Rightarrow> jsnum" where
  "js_div64 x y = (case js_div x y of Num q \<Rightarrow> Num (fl64 q) | PosInfinity \<Rightarrow> PosInfinity
                   | NegInfinity \<Rightarrow> NegInfinity | NaN \<Rightarrow> NaN)"

section \<open>Promises\<close>

datatype js_error = TypeError string | Error string

datatype 'a promise = Resolved 'a | Rejected js_error | Pending

text \<open>\<open>await p\<close> followed by the rest of an async function.\<close>

fun await :: "'a promise \<Rightarrow> ('a \<Rightarrow> 'b promise) \<Rightarrow> 'b promise" where
  "await (Resolved v) k = k v"
| "await (Rejected e) k = Rejected e"
| "await Pending k = Pending"

text \<open>\<open>Promise.all\<close>: rejected when a member is, otherwise pending while a member is.\<close>

fun Promise_all :: "'a promise list \<Rightarrow> 'a list promise" where
  "Promise_all [] = Resolved []"
| "Promise_all (p # ps) =
     (case p of
        Rejected e \<Rightarrow> Rejected e
      | Pending \<Rightarrow> (case Promise_all ps of Rejected e \<Rightarrow> Rejected e | _ \<Rightarrow> Pending)
      | Resolved v \<Rightarrow>
          (case Promise_all ps of
             Resolved vs \<Rightarrow> Resolved (v # vs)
           | Rejected e \<Rightarrow> Rejected e
           | Pending \<Rightarrow> Pending))"

section \<open>The platform's URL constructor\<close>

text \<open>
  \<open>new URL(url)\<close> belongs to the runtime, not to the repository, so the executor
  below takes it as a parameter \<open>URL_new\<close>. \<open>URL_basic\<close> is a sample of it for
  inputs of the shape \<open>scheme://host[:port][/path][?query][#fragment]\<close>: it follows the
  URL standard's parser through its scheme states (an input without a scheme and without
  a base URL is a failure, which the constructor throws as a \<open>TypeError\<close>) and splits
  the remainder at its delimiters.
\<close>

record parsed_url =
  protocol :: string
  hostname :: string
  port :: string
  pathname :: string
  search :: string

definition c0_or_space :: "char \<Rightarrow> bool" where
  "c0_or_space c = ((of_char c :: nat) \<le> 32)"

definition tab_or_newline :: "char \<Rightarrow> bool" where
  "tab_or_newline c = ((of_char c :: nat) = 9 \<or> (of_char c :: nat) = 10 \<or> (of_char c :: nat) = 13)"

definition ascii_upper_alpha :: "char \<Rightarrow> bool" where
  "ascii_upper_alpha c = (65 \<le> (of_char c :: nat) \<and> (of_char c :: nat) \<le> 90)"

definition ascii_lower_alpha :: "char \<Rightarrow> bool" where
  "ascii_lower_alpha c = (97 \<le> (of_char c :: nat) \<and> (of_char c :: nat) \<le> 122)"

definition ascii_digit :: "char \<Rightarrow> bool" where
  "ascii_digit c = (48 \<le> (of_char c :: nat) \<and> (of_char c :: nat) \<le> 57)"

definition ascii_alpha :: "char \<Rightarrow> bool" where
  "ascii_alpha c = (ascii_upper_alpha c \<or> ascii_lower_alpha c)"

definition scheme_char :: "char \<Rightarrow> bool" where
  "scheme_char c =
     (ascii_alpha c \<or> ascii_digit c \<or> c = CHR ''+'' \<or> c = CHR ''-'' \<or> c = CHR ''.'')"

definition ascii_lowercase :: "char \<Rightarrow> char" where
  "ascii_lowercase c = (if ascii_upper_alpha c then char_of ((of_char c :: nat) + 32) else c)"

text \<open>The scheme of an input and what follows its colon; \<open>None\<close> when there is no scheme.\<close>

definition URL_scheme :: "string \<Rightarrow> (string \<times> string) option" where
  "URL_scheme input =
     (let trimmed = rev (dropWhile c0_or_space (rev (dropWhile c0_or_space input)));
          s = filter (\<lambda>c. \<not> tab_or_newline c) trimmed
      in case s of
           [] \<Rightarrow> None
         | c # cs \<Rightarrow>
             if \<not> ascii_alpha c then None
             else (case dropWhile scheme_char s of
                     [] \<Rightarrow> None
                   | d # rest \<Rightarrow>
                       if d = CHR '':''
                       then Some (map ascii_lowercase (takeWhile scheme_char s), rest)
                       else None))"

definition URL_basic :: "string \<Rightarrow> js_error + parsed_url" where
  "URL_basic input =
     (case URL_scheme input of
        None \<Rightarrow> Inl (TypeError ''Invalid URL'')
      | Some (scheme, rest) \<Rightarrow>
          let slashes = (take 2 rest = ''//'');
              authority = (if slashes then takeWhile (\<lambda>c. c \<notin> set ''/?#'') (drop 2 rest) else []);
              tail = (if slashes then dropWhile (\<lambda>c. c \<notin> set ''/?#'') (drop 2 rest) else rest);
              host = takeWhile (\<lambda>c. c \<noteq> CHR '':'') authority;
              prt = drop 1 (dropWhile (\<lambda>c. c \<noteq> CHR '':'') authority);
              path = takeWhile (\<lambda>c. c \<notin> set ''?#'') tail;
              query = takeWhile (\<lambda>c. c \<noteq> CHR ''#'') (dropWhile (\<lambda>c. c \<notin> set ''?#'') tail)
          in Inr \<lparr>protocol = scheme @ '':'',
                  hostname = map ascii_lowercase host,
                  port = (if (scheme = ''http'' \<and> prt = ''80'') \<or> (scheme = ''https'' \<and> prt = ''443'')
                          then [] else prt),
                  pathname = (if path = [] \<and> slashes then ''/'' else path),
                  search = (if query = ''?'' then [] else query)\<rparr>)"

section \<open>Request Executor: \<open>LoadTester.makeRequest\<close>\<close>

text \<open>
  What the network does with one request is the environment's choice. The executor
  listens for two events only: the response's \<open>end\<close> and the request's \<open>error\<close>.
  It arms no timer and sets no timeout, so \<open>NoEvent\<close> stands for an exchange in which
  neither of the two is ever emitted (a peer that accepts the connection and never answers).
  Each event carries the reading of \<open>performance.now()\<close> taken in its handler.
  \<open>RequestThrows\<close> stands for a synchronous throw of \<open>protocol.request(options, ...)\<close>,
  \<open>req.write(body)\<close> or \<open>req.end()\<close>, as the runtime does for a request it refuses to
  build (a path with a space, a method that is not a token): all three run inside the
  promise's executor without a guard, so the throw rejects the promise.
\<close>

datatype transport = http | https

record request_options =
  opt_hostname :: string
  opt_port :: string
  opt_path :: string
  opt_method :: string
  opt_headers :: "string \<rightharpoonup> string"

datatype net_event =
    ResponseEnd nat "(string \<times> string) list" "string list" real
  | RequestError string real
  | RequestThrows js_error
  | NoEvent

record exchange =
  clock_start :: real
  network :: "transport \<Rightarrow> request_options \<Rightarrow> string option \<Rightarrow> net_event"

record settled =
  success :: bool
  error :: "string option"

record outcome = settled +
  statusCode :: nat
  headers :: "(string \<times> string) list"
  data :: string
  responseTime :: real

text \<open>What \<open>makeRequest\<close> hands to \<open>http.request\<close> / \<open>https.request\<close>.\<close>

definition request_options_of ::
  "parsed_url \<Rightarrow> string \<Rightarrow> (string \<rightharpoonup> string) \<Rightarrow> request_options" where
  "request_options_of parsedUrl http_method hdrs =
     \<lparr>opt_hostname = hostname parsedUrl,
      opt_port = (if port parsedUrl \<noteq> [] then port parsedUrl
                  else if protocol parsedUrl = ''https:'' then ''443'' else ''80''),
      opt_path = pathname parsedUrl @ search parsedUrl,
      opt_method = http_method,
      opt_headers = map_of [(''User-Agent'', ''INR100-LoadTest/1.0''),
                            (''Accept'', ''application/json'')] ++ hdrs\<rparr>"

definition protocol_module :: "parsed_url \<Rightarrow> transport" where
  "protocol_module parsedUrl = (if protocol parsedUrl = ''https:'' then https else http)"

text \<open>\<open>if (body) req.write(body)\<close>: \<open>null\<close> and the empty string are falsy.\<close>

definition written_body :: "string option \<Rightarrow> string option" where
  "written_body body = (case body of None \<Rightarrow> None | Some b \<Rightarrow> if b = [] then None else Some b)"

definition makeRequest ::
  "(string \<Rightarrow> js_error + parsed_url) \<Rightarrow> string \<Rightarrow> string \<Rightarrow> (string \<rightharpoonup> string)
     \<Rightarrow> string option \<Rightarrow> exchange \<Rightarrow> outcome promise" where
  "makeRequest URL_new target http_method hdrs body x =
     (let startTime = clock_start x
      in case URL_new target of
           Inl e \<Rightarrow> Rejected e
         | Inr parsedUrl \<Rightarrow>
             (case network x (protocol_module parsedUrl)
                     (request_options_of parsedUrl http_method hdrs) (written_body body) of
                ResponseEnd status response_headers chunks endTime \<Rightarrow>
                  Resolved \<lparr>success = status < 400, error = None,
                            statusCode = status, headers = response_headers,
                            data = concat chunks, responseTime = endTime - startTime\<rparr>
              | RequestError message endTime \<Rightarrow>
                  Resolved \<lparr>success = False, error = Some message,
                            statusCode = 0, headers = [],
                            data = [], responseTime = endTime - startTime\<rparr>
              | RequestThrows e \<Rightarrow> Rejected e
              | NoEvent \<Rightarrow> Pending))"

section \<open>Request Executor: \<open>DatabaseLoadTester.executeQuery\<close>\<close>

text \<open>
  The driver's part of one query is the environment's choice: \<open>pool.getConnection()\<close>
  throws (also when the pool was never initialised: reading a method of \<open>null\<close> is a
  \<open>TypeError\<close> raised inside the \<open>try\<close>), \<open>connection.execute\<close> throws, or it
  returns rows. Each event carries the clock reading taken after it. The \<open>finally\<close>
  block releases the connection, if one was acquired, and changes nothing in the outcome.
\<close>

datatype query_rows = RowArray "string list" | ResultSetHeader

datatype db_event =
    GetConnectionThrows string real
  | ExecuteThrows string real
  | ExecuteReturns query_rows real

record db_exchange =
  db_clock_start :: real
  database :: "string \<Rightarrow> string list \<Rightarrow> db_event"

record query_outcome = settled +
  queryTime :: real
  rowsAffected :: nat
  rows_data :: "query_rows option"

definition executeQuery :: "string \<Rightarrow> string list \<Rightarrow> db_exchange \<Rightarrow> query_outcome promise" where
  "executeQuery query params x =
     (let startTime = db_clock_start x
      in case database x query params of
           ExecuteReturns rows endTime \<Rightarrow>
             Resolved \<lparr>success = True, error = None,
                       queryTime = endTime - startTime,
                       rowsAffected = (case rows of RowArray rs \<Rightarrow> length rs | ResultSetHeader \<Rightarrow> 0),
                       rows_data = Some rows\<rparr>
         | GetConnectionThrows message endTime \<Rightarrow>
             Resolved \<lparr>success = False, error = Some message,
                       queryTime = endTime - startTime, rowsAffected = 0, rows_data = None\<rparr>
         | ExecuteThrows message endTime \<Rightarrow>
             Resolved \<lparr>success = False, error = Some message,
                       queryTime = endTime - startTime, rowsAffected = 0, rows_data = None\<rparr>)"

section \<open>Load Generator and Metrics Aggregator: \<open>LoadTester\<close>\<close>

record metrics =
  totalRequests :: nat
  successfulRequests :: nat
  failedRequests :: nat
  totalTime :: real
  avgResponseTime :: jsnum
  maxResponseTime :: jsnum
  minResponseTime :: jsnum
  requestsPerSecond :: jsnum
  errorRate :: jsnum

datatype status_key = Status nat | ERROR

record endpoint_result = metrics +
  url :: string
  concurrentUsers :: nat
  requestsPerUser :: nat
  statusCodes :: "status_key \<rightharpoonup> nat"

record LoadTester =
  summary :: metrics
  detailed :: "outcome list"
  endpoints :: "string \<rightharpoonup> endpoint_result"

text \<open>The constructor.\<close>

definition new_LoadTester :: LoadTester where
  "new_LoadTester =
     \<lparr>summary = \<lparr>totalRequests = 0, successfulRequests = 0, failedRequests = 0,
                 totalTime = 0, avgResponseTime = Num 0, maxResponseTime = Num 0,
                 minResponseTime = PosInfinity, requestsPerSecond = Num 0, errorRate = Num 0\<rparr>,
      detailed = [],
      endpoints = Map.empty\<rparr>"

definition getStatusCodeDistribution :: "outcome list \<Rightarrow> (status_key \<rightharpoonup> nat)" where
  "getStatusCodeDistribution results =
     fold (\<lambda>result distribution.
             let status = (if statusCode result \<noteq> 0 then Status (statusCode result) else ERROR)
             in distribution(status \<mapsto> (case distribution status of None \<Rightarrow> 0 | Some n \<Rightarrow> n) + 1))
          results Map.empty"

text \<open>
  One batch. The environment gives, for request \<open>request\<close> of user \<open>user\<close>, the
  exchange that \<open>makeRequest\<close> meets, and the two clock readings around
  \<open>await Promise.all(promises)\<close>.
\<close>

record batch_env =
  net :: "nat \<Rightarrow> nat \<Rightarrow> exchange"
  batch_start :: real
  batch_end :: real

text \<open>
  \<open>new Promise(async (resolve) => { const result = await this.makeRequest(url);
  resolve(result); ... })\<close>: the promise pushed for one request resolves with the
  executor's outcome. It has no path to rejection: if \<open>makeRequest\<close> rejects, the
  \<open>async\<close> callback's own promise rejects, unhandled, and \<open>resolve\<close> is never called.
\<close>

fun user_request :: "outcome promise \<Rightarrow> outcome promise" where
  "user_request (Resolved result) = Resolved result"
| "user_request (Rejected e) = Pending"
| "user_request Pending = Pending"

text \<open>
  \<open>testEndpoint\<close> returns the batch's result and leaves the tester updated. The delay
  between requests plays no part in the result (see \<open>testEndpoint_schedule\<close> below) and
  is not an argument here. The parameters \<open>url\<close>, \<open>concurrentUsers\<close> and
  \<open>requestsPerUser\<close> and the locals \<open>totalTime\<close>, \<open>avgResponseTime\<close>,
  \<open>maxResponseTime\<close>, \<open>minResponseTime\<close>, \<open>requestsPerSecond\<close> and \<open>errorRate\<close>
  share their names with fields of the result; here they are \<open>target\<close>, \<open>users\<close>,
  \<open>perUser\<close>, \<open>elapsed\<close>, \<open>avg\<close>, \<open>maxTime\<close>, \<open>minTime\<close>, \<open>perSecond\<close>
  and \<open>rate\<close>.
\<close>

definition testEndpoint ::
  "(string \<Rightarrow> js_error + parsed_url) \<Rightarrow> LoadTester \<Rightarrow> string \<Rightarrow> nat \<Rightarrow> nat \<Rightarrow> batch_env
     \<Rightarrow> (endpoint_result \<times> LoadTester) promise" where
  "testEndpoint URL_new this target users perUser env =
     (let promises =
            concat (map (\<lambda>user. map (\<lambda>request.
                           user_request (makeRequest URL_new target ''GET'' Map.empty None
                                           (net env user request)))
                         [0..<perUser])
                    [0..<users]);
          startTime = batch_start env
      in await (Promise_all promises) (\<lambda>results.
           let elapsed = batch_end env - startTime;
               successful = filter success results;
               failed = filter (\<lambda>r. \<not> success r) results;
               responseTimes = map responseTime results;
               avg = js_div64 (Num (foldl (\<lambda>a b. fl64 (a + b)) 0 responseTimes))
                              (Num (real (length responseTimes)));
               maxTime = Math_max responseTimes;
               minTime = Math_min responseTimes;
               perSecond = js_div (Num (real (length results))) (js_div (Num elapsed) (Num 1000));
               rate = js_mul (js_div (Num (real (length failed))) (Num (real (length results))))
                             (Num 100);
               endpointResult =
                 \<lparr>totalRequests = length results,
                  successfulRequests = length successful,
                  failedRequests = length failed,
                  totalTime = elapsed,
                  avgResponseTime = avg,
                  maxResponseTime = maxTime,
                  minResponseTime = minTime,
                  requestsPerSecond = perSecond,
                  errorRate = rate,
                  url = target,
                  concurrentUsers = users,
                  requestsPerUser = perUser,
                  statusCodes = getStatusCodeDistribution results\<rparr>;
               s = summary this
           in Resolved
                (endpointResult,
                 this\<lparr>endpoints := (endpoints this)(target \<mapsto> endpointResult),
                      detailed := detailed this @ results,
                      summary :=
                        s\<lparr>totalRequests := totalRequests s + length results,
                          successfulRequests := successfulRequests s + length successful,
                          failedRequests := failedRequests s + length failed,
                          totalTime := max (totalTime s) elapsed\<rparr>\<rparr>)))"

text \<open>The batch result that a settled call of \<open>testEndpoint\<close> returns, if it has.\<close>

definition returned :: "('a \<times> 'b) promise \<Rightarrow> 'a option" where
  "returned p = (case p of Resolved (r, t) \<Rightarrow> Some r | Rejected e \<Rightarrow> None | Pending \<Rightarrow> None)"

text \<open>A sequence of \<open>testEndpoint\<close> calls on one tester, each awaited before the next.\<close>

record batch_call =
  call_url :: string
  call_users :: nat
  call_perUser :: nat
  call_env :: batch_env

fun testEndpoint_calls ::
  "(string \<Rightarrow> js_error + parsed_url) \<Rightarrow> LoadTester \<Rightarrow> batch_call list \<Rightarrow> LoadTester promise" where
  "testEndpoint_calls URL_new this [] = Resolved this"
| "testEndpoint_calls URL_new this (c # cs) =
     await (testEndpoint URL_new this (call_url c) (call_users c) (call_perUser c) (call_env c))
           (\<lambda>(r, this'). testEndpoint_calls URL_new this' cs)"

text \<open>
  \<open>percentile\<close>: the quotient \<open>p / 100\<close> and its product with the length are rounded
  to binary64 before \<open>Math.ceil\<close>. Reading an array past its end gives \<open>undefined\<close>,
  here \<open>None\<close>.
\<close>

definition percentile :: "real list \<Rightarrow> real \<Rightarrow> real option" where
  "percentile sortedArray p =
     (let index = \<lceil>fl64 (fl64 (p / 100) * real (length sortedArray))\<rceil> - 1;
          i = nat (max 0 index)
      in if i < length sortedArray then Some (sortedArray ! i) else None)"

record performance =
  p50 :: "real option"
  p90 :: "real option"
  p95 :: "real option"
  p99 :: "real option"
  throughput :: jsnum
  averageResponseTime :: jsnum

text \<open>\<open>analyzePerformance\<close> (the process's memory usage and uptime are left out).\<close>

definition analyzePerformance :: "LoadTester \<Rightarrow> performance" where
  "analyzePerformance this =
     (let responseTimes = map responseTime (detailed this);
          sortedTimes = sort responseTimes
      in \<lparr>p50 = percentile sortedTimes 50,
          p90 = percentile sortedTimes 90,
          p95 = percentile sortedTimes 95,
          p99 = percentile sortedTimes 99,
          throughput = requestsPerSecond (summary this),
          averageResponseTime = avgResponseTime (summary this)\<rparr>)"

text \<open>The \<open>summary\<close> and \<open>performance\<close> parts of \<open>generateReport\<close>.\<close>

record report =
  report_summary :: metrics
  report_endpoints :: "string \<rightharpoonup> endpoint_result"
  report_performance :: performance

definition generateReport :: "LoadTester \<Rightarrow> report" where
  "generateReport this =
     (let s = summary this;
          times = map responseTime (detailed this)
      in \<lparr>report_summary =
            s\<lparr>avgResponseTime :=
                 js_or (avgResponseTime s)
                       (js_div64 (Num (foldl (\<lambda>sum r. fl64 (sum + r)) 0 times))
                                 (Num (real (length (detailed this))))),
              maxResponseTime := Math_max times,
              minResponseTime := Math_min times,
              requestsPerSecond :=
                 js_div (Num (real (totalRequests s))) (js_div (Num (totalTime s)) (Num 1000)),
              errorRate :=
                 js_mul (js_div (Num (real (failedRequests s))) (Num (real (totalRequests s))))
                        (Num 100)\<rparr>,
          report_endpoints = endpoints this,
          report_performance = analyzePerformance this\<rparr>)"

section \<open>Order of the requests within \<open>testEndpoint\<close>\<close>

text \<open>
  The two nested loops of \<open>testEndpoint\<close> run to completion before any callback does.
  Each \<open>new Promise(async (resolve) => ...)\<close> runs its callback at once, up to its first
  \<open>await\<close>, and the operand of that \<open>await\<close>, \<open>this.makeRequest(url)\<close>, has by
  then issued the request (\<open>req.end()\<close>). Only afterwards do the requests settle, in an
  order \<open>settle_order\<close> that the environment chooses; the continuation of a settled request
  resolves its promise and then, unless the request is the user's last, arms the delay
  timer, after which nothing is left to run.
\<close>

datatype sched_event =
    RequestIssued nat nat
  | RequestSettled nat nat
  | DelayArmed nat nat real

definition launch :: "nat \<Rightarrow> nat \<Rightarrow> sched_event list" where
  "launch users perUser =
     concat (map (\<lambda>user. map (\<lambda>request. RequestIssued user request) [0..<perUser]) [0..<users])"

definition after_settled :: "nat \<Rightarrow> real \<Rightarrow> nat \<times> nat \<Rightarrow> sched_event list" where
  "after_settled perUser delayBetweenRequests =
     (\<lambda>(user, request).
        RequestSettled user request #
        (if int request < int perUser - 1 then [DelayArmed user request delayBetweenRequests]
         else []))"

definition testEndpoint_schedule ::
  "nat \<Rightarrow> nat \<Rightarrow> real \<Rightarrow> (nat \<times> nat) list \<Rightarrow> sched_event list" where
  "testEndpoint_schedule users perUser delayBetweenRequests settle_order =
     launch users perUser @ concat (map (after_settled perUser delayBetweenRequests) settle_order)"

text \<open>
  A schedule keeps each user's requests in sequence when request \<open>k + 1\<close> of a user is
  issued only after that user's request \<open>k\<close> has settled (\<open>seen\<close> collects the
  requests settled so far). Waiting for the delay as well would ask for more.
\<close>

fun in_sequence :: "(nat \<times> nat) list \<Rightarrow> sched_event list \<Rightarrow> bool" where
  "in_sequence seen [] = True"
| "in_sequence seen (RequestIssued user request # es) =
     ((case request of 0 \<Rightarrow> True | Suc k \<Rightarrow> (user, k) \<in> set seen) \<and> in_sequence seen es)"
| "in_sequence seen (RequestSettled user request # es) = in_sequence ((user, request) # seen) es"
| "in_sequence seen (DelayArmed user request d # es) = in_sequence seen es"

section \<open>Scenario Orchestrator: \<open>LoadTestRunner\<close>\<close>







section \<open>Sample inputs\<close>

text \<open>An outcome of a request answered with status 200 after \<open>t\<close> milliseconds.\<close>

definition sample_outcome :: "real \<Rightarrow> outcome" where
  "sample_outcome t =
     \<lparr>success = True, error = None, statusCode = 200, headers = [], data = [], responseTime = t\<rparr>"

text \<open>
  An exchange begun at clock reading \<open>t0\<close> in which the network answers with the event
  \<open>ev\<close>. A batch environment between the clock readings \<open>t_start\<close> and \<open>t_end\<close>:
  every request begins at \<open>t_start\<close> and \<open>events\<close> gives, for each request, the event
  that answers it, timed from the request's beginning.
\<close>

definition exchange_of :: "real \<Rightarrow> net_event \<Rightarrow> exchange" where
  "exchange_of t0 ev = \<lparr>clock_start = t0, network = (\<lambda>module options body. ev)\<rparr>"

fun at_offset :: "real \<Rightarrow> net_event \<Rightarrow> net_event" where
  "at_offset t0 (ResponseEnd status response_headers chunks t) =
     ResponseEnd status response_headers chunks (t0 + t)"
| "at_offset t0 (RequestError message t) = RequestError message (t0 + t)"
| "at_offset t0 (RequestThrows e) = RequestThrows e"
| "at_offset t0 NoEvent = NoEvent"

definition env_of :: "(nat \<Rightarrow> nat \<Rightarrow> net_event) \<Rightarrow> real \<Rightarrow> real \<Rightarrow> batch_env" where
  "env_of events t_start t_end =
     \<lparr>net = (\<lambda>user request. exchange_of t_start (at_offset t_start (events user request))),
      batch_start = t_start, batch_end = t_end\<rparr>"

text \<open>
  A batch in which each user's first request is answered with status 200 after 50 ms and
  every later one fails with a connection reset after 70 ms, and two calls of such batches.
\<close>

definition mixed_events :: "nat \<Rightarrow> nat \<Rightarrow> net_event" where
  "mixed_events user request =
     (if request = 0 then ResponseEnd 200 [] [''ok''] 50 else RequestError ''ECONNRESET'' 70)"

definition two_calls :: "batch_call list" where
  "two_calls =
     [\<lparr>call_url = ''http://localhost:3000/api/health'', call_users = 1, call_perUser = 2,
       call_env = env_of mixed_events 0 100\<rparr>,
      \<lparr>call_url = ''http://localhost:3000/api/health'', call_users = 2, call_perUser = 1,
       call_env = env_of mixed_events 100 250\<rparr>]"



text \<open>A batch in which every request is answered with status 200 after \<open>t\<close> milliseconds.\<close>

definition steady_events :: "real \<Rightarrow> nat \<Rightarrow> nat \<Rightarrow> net_event" where
  "steady_events t user request = ResponseEnd 200 [] [''ok''] t"

text \<open>A query begun at clock reading \<open>t0\<close> that the driver settles with the event \<open>ev\<close>.\<close>

definition db_exchange_of :: "real \<Rightarrow> db_event \<Rightarrow> db_exchange" where
  "db_exchange_of t0 ev = \<lparr>db_clock_start = t0, database = (\<lambda>query params. ev)\<rparr>"

text \<open>
  An exchange with the runtime's check of the request path in front: \<open>http.request\<close>
  throws a \<open>TypeError\<close> for a path with a character outside \<open>0x21 .. 0xff\<close> (a space,
  say) before anything is sent; otherwise the network settles the request with \<open>ev\<close>.
\<close>

definition invalid_path :: "string \<Rightarrow> bool" where
  "invalid_path p = list_ex (\<lambda>c. (of_char c :: nat) < 33) p"

definition checked_exchange_of :: "real \<Rightarrow> net_event \<Rightarrow> exchange" where
  "checked_exchange_of t0 ev =
     \<lparr>clock_start = t0,
      network = (\<lambda>module options body.
                   if invalid_path (opt_path options)
                   then RequestThrows (TypeError ''Request path contains unescaped characters'')
                   else ev)\<rparr>"

section \<open>Properties of binary64 rounding\<close>

text \<open>
  The binade brackets its argument and is the only exponent that does; rounding is
  monotone, moves a non-negative number by at most the fraction \<open>2^-53\<close> of it, and
  leaves every natural number below \<open>2^53\<close> as it is. \<open>fl64_eval\<close> evaluates a
  rounding once the binade is given.
\<close>

lemma two_power_int_Suc: "power_int (2::real) (e + 1) = 2 * power_int 2 e"
  by (simp add: power_int_add)

lemma binade_up_bounds:
  "1 \<le> x \<Longrightarrow> power_int 2 (binade_up x) \<le> x \<and> x < power_int 2 (binade_up x + 1)"
proof (induction x rule: binade_up.induct)
  case (1 x)
  show ?case
  proof (cases "2 \<le> x")
    case True
    then have "power_int 2 (binade_up (x / 2)) \<le> x / 2 \<and> x / 2 < power_int 2 (binade_up (x / 2) + 1)"
      using "1.IH" by simp
    moreover have "binade_up x = binade_up (x / 2) + 1"
      using True by (subst binade_up.simps) simp
    moreover have "power_int (2::real) (binade_up (x / 2) + 1 + 1)
                   = 2 * power_int 2 (binade_up (x / 2) + 1)"
      by (rule two_power_int_Suc)
    moreover have "power_int (2::real) (binade_up (x / 2) + 1) = 2 * power_int 2 (binade_up (x / 2))"
      by (rule two_power_int_Suc)
    ultimately show ?thesis by (simp only:) linarith
  next
    case False
    then have "binade_up x = 0" by (subst binade_up.simps) simp
    with False "1.prems" show ?thesis by simp
  qed
qed

lemma binade_down_bounds:
  "0 < x \<Longrightarrow> x < 1 \<Longrightarrow>
     power_int 2 (binade_down x) \<le> x \<and> x < power_int 2 (binade_down x + 1)"
proof (induction x rule: binade_down.induct)
  case (1 x)
  have step: "binade_down x = binade_down (2 * x) - 1"
    using "1.prems" by (subst binade_down.simps) simp
  show ?case
  proof (cases "2 * x < 1")
    case True
    then have "power_int 2 (binade_down (2 * x)) \<le> 2 * x \<and>
               2 * x < power_int 2 (binade_down (2 * x) + 1)"
      using "1.IH" "1.prems" by simp
    moreover have "power_int (2::real) (binade_down (2 * x)) = 2 * power_int 2 (binade_down (2 * x) - 1)"
      using two_power_int_Suc [of "binade_down (2 * x) - 1"] by simp
    moreover have "power_int (2::real) (binade_down (2 * x) + 1) = 2 * power_int 2 (binade_down (2 * x))"
      by (rule two_power_int_Suc)
    ultimately have "power_int 2 (binade_down (2 * x) - 1) \<le> x \<and>
                     x < power_int 2 (binade_down (2 * x) - 1 + 1)"
      by simp
    then show ?thesis by (simp only: step)
  next
    case False
    then have "binade_down (2 * x) = 0" by (subst binade_down.simps) simp
    with False "1.prems" show ?thesis by (simp add: step)
  qed
qed

lemma binade_bounds:
  "0 < x \<Longrightarrow> power_int 2 (binade x) \<le> x \<and> x < power_int 2 (binade x + 1)"
  using binade_up_bounds [of x] binade_down_bounds [of x] by (simp add: binade_def)

lemma two_power_int_le: "m \<le> n \<Longrightarrow> power_int (2::real) m \<le> power_int 2 n"
  by (rule power_int_increasing) simp_all

lemma binade_unique:
  assumes "power_int 2 e \<le> x" and "x < power_int 2 (e + 1)"
  shows "binade x = e"
proof -
  have x: "0 < x" using assms(1) zero_less_power_int [of "2::real" e] by linarith
  from binade_bounds [OF x] have b: "power_int 2 (binade x) \<le> x" "x < power_int 2 (binade x + 1)"
    by simp_all
  have "\<not> binade x + 1 \<le> e"
    using two_power_int_le [of "binade x + 1" e] assms(1) b(2) by linarith
  moreover have "\<not> e + 1 \<le> binade x"
    using two_power_int_le [of "e + 1" "binade x"] assms(2) b(1) by linarith
  ultimately show ?thesis by simp
qed


lemma round_half_even_of_int: "round_half_even (of_int k) = k"
  by (simp add: round_half_even_def)

lemma round_half_even_error: "\<bar>of_int (round_half_even q) - q\<bar> \<le> 1 / 2"
proof -
  have "of_int \<lfloor>q\<rfloor> \<le> q" and "q < of_int \<lfloor>q\<rfloor> + 1" by linarith+
  then show ?thesis by (auto simp: round_half_even_def Let_def)
qed

lemma round_half_even_cases:
  "round_half_even q = \<lfloor>q\<rfloor> \<and> q - of_int \<lfloor>q\<rfloor> \<le> 1 / 2 \<or>
   round_half_even q = \<lfloor>q\<rfloor> + 1 \<and> 1 / 2 \<le> q - of_int \<lfloor>q\<rfloor>"
  by (auto simp: round_half_even_def Let_def)

lemma round_half_even_mono:
  assumes "q \<le> q'"
  shows "round_half_even q \<le> round_half_even q'"
proof (cases "\<lfloor>q\<rfloor> = \<lfloor>q'\<rfloor>")
  case True
  with assms show ?thesis by (auto simp: round_half_even_def Let_def)
next
  case False
  with assms have "\<lfloor>q\<rfloor> + 1 \<le> \<lfloor>q'\<rfloor>" using floor_mono [OF assms] by linarith
  with round_half_even_cases [of q] round_half_even_cases [of q'] show ?thesis by linarith
qed

lemma fl64_pos:
  "0 < x \<Longrightarrow>
     fl64 x = of_int (round_half_even (x / power_int 2 (binade x - 52))) * power_int 2 (binade x - 52)"
  by (simp add: fl64_def Let_def)

lemma fl64_eval:
  assumes "power_int 2 e \<le> x" and "x < power_int 2 (e + 1)"
  shows "fl64 x = of_int (round_half_even (x / power_int 2 (e - 52))) * power_int 2 (e - 52)"
proof -
  have "0 < x" using assms(1) zero_less_power_int [of "2::real" e] by linarith
  then show ?thesis using binade_unique [OF assms] by (simp add: fl64_pos)
qed

lemma ulp_half: "power_int (2::real) (e - 52) / 2 = power_int 2 e / 2 ^ 53"
proof -
  have "power_int (2::real) e = power_int 2 (e - 52) * power_int 2 52"
    using power_int_add [of "2::real" "e - 52" 52] by simp
  then show ?thesis by simp
qed

lemma fl64_error:
  assumes "0 \<le> x"
  shows "\<bar>fl64 x - x\<bar> \<le> x / 2 ^ 53"
proof (cases "x = 0")
  case True
  then show ?thesis by (simp add: fl64_def)
next
  case False
  with assms have x: "0 < x" by simp
  define u where "u = power_int (2::real) (binade x - 52)"
  have u: "0 < u" by (simp add: u_def)
  define q where "q = x / u"
  have xq: "x = q * u" using u by (simp add: q_def)
  have "fl64 x = of_int (round_half_even q) * u"
    using fl64_pos [OF x] unfolding u_def q_def by simp
  with xq have "fl64 x - x = of_int (round_half_even q) * u - q * u" by linarith
  then have "fl64 x - x = (of_int (round_half_even q) - q) * u"
    by (simp add: algebra_simps)
  then have "\<bar>fl64 x - x\<bar> = \<bar>of_int (round_half_even q) - q\<bar> * u"
    using u by (simp add: abs_mult)
  also have "\<dots> \<le> (1 / 2) * u"
    using round_half_even_error [of q] u by (intro mult_right_mono) simp_all
  also have "\<dots> = power_int 2 (binade x) / 2 ^ 53"
    using ulp_half [of "binade x"] by (simp add: u_def)
  also have "\<dots> \<le> x / 2 ^ 53"
    using binade_bounds [OF x] by (simp add: divide_right_mono)
  finally show ?thesis .
qed

lemma fl64_upper:
  assumes "0 \<le> x"
  shows "fl64 x \<le> x * (1 + 1 / 2 ^ 53)"
proof -
  have "fl64 x - x \<le> x / 2 ^ 53" using fl64_error [OF assms] by linarith
  moreover have "x * (1 + 1 / 2 ^ 53) = x + x / 2 ^ 53" by (simp add: algebra_simps)
  ultimately show ?thesis by linarith
qed

lemma fl64_lower:
  assumes "0 \<le> x"
  shows "x * (1 - 1 / 2 ^ 53) \<le> fl64 x"
proof -
  have "x - fl64 x \<le> x / 2 ^ 53" using fl64_error [OF assms] by linarith
  moreover have "x * (1 - 1 / 2 ^ 53) = x - x / 2 ^ 53" by (simp add: algebra_simps)
  ultimately show ?thesis by linarith
qed

lemma fl64_nonneg: "0 \<le> x \<Longrightarrow> 0 \<le> fl64 x"
proof -
  assume x: "0 \<le> x"
  have "0 \<le> x * (1 - 1 / 2 ^ 53)" using x by (intro mult_nonneg_nonneg) simp_all
  with fl64_lower [OF x] show ?thesis by linarith
qed


lemma fl64_0: "fl64 0 = 0"
  by (simp add: fl64_def)

lemma fl64_ge_binade:
  assumes "0 < x"
  shows "power_int 2 (binade x) \<le> fl64 x" and "fl64 x \<le> power_int 2 (binade x + 1)"
proof -
  define u where "u = power_int (2::real) (binade x - 52)"
  have u: "0 < u" by (simp add: u_def)
  define q where "q = x / u"
  have lo: "power_int 2 (binade x) = 2 ^ 52 * u"
    using power_int_add [of "2::real" 52 "binade x - 52"] by (simp add: u_def)
  have hi: "power_int 2 (binade x + 1) = 2 ^ 53 * u"
    using power_int_add [of "2::real" 53 "binade x - 52"] by (simp add: u_def add.commute)
  have f: "fl64 x = of_int (round_half_even q) * u"
    using fl64_pos [OF assms] unfolding u_def q_def by simp
  from binade_bounds [OF assms] have "2 ^ 52 * u \<le> x" "x < 2 ^ 53 * u"
    by (simp_all add: lo hi)
  then have "2 ^ 52 \<le> q" "q \<le> 2 ^ 53"
    using u by (simp_all add: q_def pos_le_divide_eq pos_divide_le_eq)
  then have "round_half_even (of_int (2 ^ 52)) \<le> round_half_even q"
    and "round_half_even q \<le> round_half_even (of_int (2 ^ 53))"
    by (auto intro!: round_half_even_mono)
  then have "2 ^ 52 \<le> round_half_even q" "round_half_even q \<le> 2 ^ 53"
    by (simp_all only: round_half_even_of_int)
  then have "(2::real) ^ 52 \<le> of_int (round_half_even q)" "of_int (round_half_even q) \<le> (2::real) ^ 53"
    using of_int_le_iff [of "2 ^ 52" "round_half_even q", where ?'a = real]
          of_int_le_iff [of "round_half_even q" "2 ^ 53", where ?'a = real] by simp_all
  then show "power_int 2 (binade x) \<le> fl64 x" and "fl64 x \<le> power_int 2 (binade x + 1)"
    using u by (simp_all add: lo hi f)
qed

lemma binade_mono:
  assumes "0 < x" and "x \<le> y"
  shows "binade x \<le> binade y"
proof (rule ccontr)
  assume "\<not> binade x \<le> binade y"
  then have "binade y + 1 \<le> binade x" by simp
  then have "power_int (2::real) (binade y + 1) \<le> power_int 2 (binade x)"
    by (rule two_power_int_le)
  moreover have "0 < y" using assms by linarith
  ultimately show False
    using binade_bounds [OF assms(1)] binade_bounds [OF \<open>0 < y\<close>] assms(2) by linarith
qed

lemma fl64_mono:
  assumes "0 \<le> x" and "x \<le> y"
  shows "fl64 x \<le> fl64 y"
proof (cases "x = 0")
  case True
  then show ?thesis using fl64_nonneg [of y] assms by (simp add: fl64_0)
next
  case False
  with assms have x: "0 < x" and y: "0 < y" by simp_all
  show ?thesis
  proof (cases "binade x = binade y")
    case True
    define u where "u = power_int (2::real) (binade y - 52)"
    have u: "0 < u" by (simp add: u_def)
    have "x / u \<le> y / u" using assms(2) u by (simp add: divide_right_mono)
    then have "round_half_even (x / u) \<le> round_half_even (y / u)"
      by (rule round_half_even_mono)
    then have "real_of_int (round_half_even (x / u)) \<le> of_int (round_half_even (y / u))"
      by simp
    then have "of_int (round_half_even (x / u)) * u \<le> of_int (round_half_even (y / u)) * u"
      using u by (simp add: mult_right_mono)
    then show ?thesis
      using fl64_pos [OF x] fl64_pos [OF y] by (simp add: True u_def)
  next
    case False
    with binade_mono [OF x assms(2)] have "binade x + 1 \<le> binade y" by simp
    then have "power_int (2::real) (binade x + 1) \<le> power_int 2 (binade y)"
      by (rule two_power_int_le)
    with fl64_ge_binade(2) [OF x] fl64_ge_binade(1) [OF y] show ?thesis by linarith
  qed
qed













section \<open>Percentiles\<close>





lemma rank_factor:
  assumes "0 \<le> p" and "p \<le> 99"
  shows "0 \<le> fl64 (p / 100)" and "fl64 (p / 100) * (1 + 1 / 2 ^ 53) < 1"
proof -
  have p: "0 \<le> p / 100" using assms(1) by simp
  show "0 \<le> fl64 (p / 100)" by (rule fl64_nonneg [OF p])
  have "fl64 (p / 100) \<le> p / 100 * (1 + 1 / 2 ^ 53)" by (rule fl64_upper [OF p])
  also have "\<dots> \<le> 99 / 100 * (1 + 1 / 2 ^ 53)"
    using assms(2) by (intro mult_right_mono) simp_all
  finally have "fl64 (p / 100) * (1 + 1 / 2 ^ 53) \<le> 99 / 100 * (1 + 1 / 2 ^ 53) * (1 + 1 / 2 ^ 53)"
    by (intro mult_right_mono) simp_all
  also have "\<dots> < 1" by simp
  finally show "fl64 (p / 100) * (1 + 1 / 2 ^ 53) < 1" .
qed

lemma percentile_index_in_range:
  assumes "xs \<noteq> []" and "0 \<le> p" and "p \<le> 99"
  shows "nat (max 0 (\<lceil>fl64 (fl64 (p / 100) * real (length xs))\<rceil> - 1)) < length xs"
proof -
  define c where "c = fl64 (p / 100)"
  have c: "0 \<le> c" "c * (1 + 1 / 2 ^ 53) < 1"
    using rank_factor [OF assms(2,3)] by (simp_all add: c_def)
  have n: "0 < real (length xs)" using assms(1) by simp
  have x: "0 \<le> c * real (length xs)" using c(1) by simp
  have "fl64 (c * real (length xs)) \<le> c * real (length xs) * (1 + 1 / 2 ^ 53)"
    by (rule fl64_upper [OF x])
  also have "\<dots> = c * (1 + 1 / 2 ^ 53) * real (length xs)" by (simp add: algebra_simps)
  also have "\<dots> < 1 * real (length xs)"
    using c(2) n by (intro mult_strict_right_mono)
  finally have "fl64 (c * real (length xs)) \<le> real (length xs)" by simp
  then have "\<lceil>fl64 (c * real (length xs))\<rceil> \<le> int (length xs)"
    by (simp add: ceiling_le_iff)
  moreover have "0 < length xs" using assms(1) by simp
  ultimately show ?thesis unfolding c_def by linarith
qed

lemma percentile_index_mono:
  assumes "0 \<le> p" and "p \<le> q"
  shows "nat (max 0 (\<lceil>fl64 (fl64 (p / 100) * real (length xs))\<rceil> - 1))
         \<le> nat (max 0 (\<lceil>fl64 (fl64 (q / 100) * real (length xs))\<rceil> - 1))"
proof -
  have "fl64 (p / 100) \<le> fl64 (q / 100)"
    using assms by (intro fl64_mono) (simp_all add: divide_right_mono)
  then have "fl64 (p / 100) * real (length xs) \<le> fl64 (q / 100) * real (length xs)"
    by (simp add: mult_right_mono)
  moreover have "0 \<le> fl64 (p / 100) * real (length xs)"
    using fl64_nonneg [of "p / 100"] assms(1) by simp
  ultimately have "fl64 (fl64 (p / 100) * real (length xs))
                   \<le> fl64 (fl64 (q / 100) * real (length xs))"
    by (intro fl64_mono)
  then have "\<lceil>fl64 (fl64 (p / 100) * real (length xs))\<rceil>
             \<le> \<lceil>fl64 (fl64 (q / 100) * real (length xs))\<rceil>"
    by (rule ceiling_mono)
  then show ?thesis by linarith
qed

lemma percentile_defined:
  assumes "xs \<noteq> []" and "0 \<le> p" and "p \<le> 99"
  shows "percentile xs p =
           Some (xs ! nat (max 0 (\<lceil>fl64 (fl64 (p / 100) * real (length xs))\<rceil> - 1)))"
  using percentile_index_in_range [OF assms] by (simp add: percentile_def Let_def)

lemma percentile_mono:
  assumes "sorted xs" "xs \<noteq> []" "0 \<le> p" "p \<le> q" "q \<le> 99"
  shows "\<exists>a b. percentile xs p = Some a \<and> percentile xs q = Some b \<and> a \<le> b"
proof -
  have p: "p \<le> 99" and q: "0 \<le> q" using assms(3,4,5) by simp_all
  let ?i = "nat (max 0 (\<lceil>fl64 (fl64 (p / 100) * real (length xs))\<rceil> - 1))"
  let ?j = "nat (max 0 (\<lceil>fl64 (fl64 (q / 100) * real (length xs))\<rceil> - 1))"
  have "?i \<le> ?j" by (rule percentile_index_mono [OF assms(3,4)])
  moreover have "?j < length xs" by (rule percentile_index_in_range [OF assms(2) q assms(5)])
  ultimately have "xs ! ?i \<le> xs ! ?j" using assms(1) by (simp add: sorted_nth_mono)
  then show ?thesis
    using percentile_defined [OF assms(2,3) p] percentile_defined [OF assms(2) q assms(5)] by simp
qed






text \<open>
  Claim C8. For any non-empty set of recorded outcomes the four reported percentiles are
  defined and monotone in the rank: \<open>p50 \<le> p90 \<le> p95 \<le> p99\<close>.
\<close>

theorem percentiles_monotone:
  assumes "detailed this \<noteq> []"
  shows "\<exists>a b c d. p50 (analyzePerformance this) = Some a \<and> p90 (analyzePerformance this) = Some b \<and>
           p95 (analyzePerformance this) = Some c \<and> p99 (analyzePerformance this) = Some d \<and>
           a \<le> b \<and> b \<le> c \<and> c \<le> d"
proof -
  define xs where "xs = sort (map responseTime (detailed this))"
  have s: "sorted xs" by (simp add: xs_def)
  have "length xs = length (detailed this)" by (simp add: xs_def)
  with assms have ne: "xs \<noteq> []" by auto
  obtain a b where ab: "percentile xs 50 = Some a" "percentile xs 90 = Some b" "a \<le> b"
    using percentile_mono [OF s ne, of 50 90] by auto
  obtain b' c where bc: "percentile xs 90 = Some b'" "percentile xs 95 = Some c" "b' \<le> c"
    using percentile_mono [OF s ne, of 90 95] by auto
  obtain c' d where cd: "percentile xs 95 = Some c'" "percentile xs 99 = Some d" "c' \<le> d"
    using percentile_mono [OF s ne, of 95 99] by auto
  from ab bc cd show ?thesis
    by (simp add: analyzePerformance_def xs_def [symmetric])
qed

theorem percentiles_monotone_witness:
  "\<exists>a b c d. p50 (analyzePerformance (new_LoadTester\<lparr>detailed := [sample_outcome 30, sample_outcome 10, sample_outcome 20]\<rparr>)) = Some a \<and>
     p90 (analyzePerformance (new_LoadTester\<lparr>detailed := [sample_outcome 30, sample_outcome 10, sample_outcome 20]\<rparr>)) = Some b \<and>
     p95 (analyzePerformance (new_LoadTester\<lparr>detailed := [sample_outcome 30, sample_outcome 10, sample_outcome 20]\<rparr>)) = Some c \<and>
     p99 (analyzePerformance (new_LoadTester\<lparr>detailed := [sample_outcome 30, sample_outcome 10, sample_outcome 20]\<rparr>)) = Some d \<and>
     a \<le> b \<and> b \<le> c \<and> c \<le> d"
  using percentiles_monotone [of "new_LoadTester\<lparr>detailed := [sample_outcome 30, sample_outcome 10, sample_outcome 20]\<rparr>"]
  by simp

section \<open>Batches\<close>

text \<open>What a batch that completes returns and stores, in terms of its list of outcomes.\<close>

lemma await_Resolved:
  "await p k = Resolved v \<longleftrightarrow> (\<exists>x. p = Resolved x \<and> k x = Resolved v)"
  by (cases p) simp_all

lemma testEndpoint_Resolved:
  assumes "testEndpoint URL_new this target users perUser env = Resolved (r, this')"
  shows "\<exists>results.
           totalRequests r = length results \<and>
           successfulRequests r = length (filter success results) \<and>
           failedRequests r = length (filter (\<lambda>x. \<not> success x) results) \<and>
           totalTime r = batch_end env - batch_start env \<and>
           avgResponseTime r =
             js_div64 (Num (foldl (\<lambda>a b. fl64 (a + b)) 0 (map responseTime results)))
                      (Num (real (length results))) \<and>
           maxResponseTime r = Math_max (map responseTime results) \<and>
           minResponseTime r = Math_min (map responseTime results) \<and>
           requestsPerSecond r =
             js_div (Num (real (length results)))
                    (js_div (Num (batch_end env - batch_start env)) (Num 1000)) \<and>
           errorRate r =
             js_mul (js_div (Num (real (length (filter (\<lambda>x. \<not> success x) results))))
                            (Num (real (length results))))
                    (Num 100) \<and>
           detailed this' = detailed this @ results \<and>
           totalRequests (summary this') = totalRequests (summary this) + length results \<and>
           successfulRequests (summary this') =
             successfulRequests (summary this) + length (filter success results) \<and>
           failedRequests (summary this') =
             failedRequests (summary this) + length (filter (\<lambda>x. \<not> success x) results)"
proof -
  from assms obtain results where
    r: "r = \<lparr>totalRequests = length results,
                  successfulRequests = length (filter success results),
                  failedRequests = length (filter (\<lambda>r. \<not> success r) results),
                  totalTime = batch_end env - batch_start env,
                  avgResponseTime = js_div64 (Num (foldl (\<lambda>a b. fl64 (a + b)) 0 (map responseTime results)))
                            (Num (real (length (map responseTime results)))),
                  maxResponseTime = Math_max (map responseTime results),
                  minResponseTime = Math_min (map responseTime results),
                  requestsPerSecond = js_div (Num (real (length results)))
                     (js_div (Num (batch_end env - batch_start env)) (Num 1000)),
                  errorRate = js_mul (js_div (Num (real (length (filter (\<lambda>r. \<not> success r) results))))
                     (Num (real (length results)))) (Num 100),
                  url = target,
                  concurrentUsers = users,
                  requestsPerUser = perUser,
                  statusCodes = getStatusCodeDistribution results\<rparr>"
    and t: "this' = this\<lparr>endpoints := (endpoints this)(target \<mapsto> r),
                      detailed := detailed this @ results,
                      summary :=
                        (summary this)\<lparr>totalRequests := totalRequests (summary this) + length results,
                          successfulRequests := successfulRequests (summary this) + length (filter success results),
                          failedRequests := failedRequests (summary this) + length (filter (\<lambda>r. \<not> success r) results),
                          totalTime := max (totalTime (summary this)) (batch_end env - batch_start env)\<rparr>\<rparr>"
    unfolding testEndpoint_def Let_def await_Resolved by blast
  show ?thesis
    apply (rule exI [of _ results])
    apply (simp only: r t)
    apply simp
    done
qed


lemma URL_basic_localhost:
  "URL_basic ''http://localhost:3000/api/health'' =
     Inr \<lparr>protocol = ''http:'', hostname = ''localhost'', port = ''3000'',
          pathname = ''/api/health'', search = []\<rparr>"
  by (simp add: URL_basic_def URL_scheme_def c0_or_space_def tab_or_newline_def ascii_alpha_def
        ascii_upper_alpha_def ascii_lower_alpha_def ascii_digit_def scheme_char_def
        ascii_lowercase_def)

lemma makeRequest_localhost:
  "makeRequest URL_basic ''http://localhost:3000/api/health'' m h b (exchange_of t0 ev) =
     (case ev of
        ResponseEnd status response_headers chunks endTime \<Rightarrow>
          Resolved \<lparr>success = status < 400, error = None, statusCode = status,
                    headers = response_headers, data = concat chunks,
                    responseTime = endTime - t0\<rparr>
      | RequestError message endTime \<Rightarrow>
          Resolved \<lparr>success = False, error = Some message, statusCode = 0, headers = [],
                    data = [], responseTime = endTime - t0\<rparr>
      | RequestThrows e \<Rightarrow> Rejected e
      | NoEvent \<Rightarrow> Pending)"
  by (simp add: makeRequest_def URL_basic_localhost exchange_of_def)


lemma mixed_batch_resolves:
  "\<exists>r this'. testEndpoint URL_basic this ''http://localhost:3000/api/health'' 1 2
                (env_of mixed_events 0 100) = Resolved (r, this')"
  by (simp add: testEndpoint_def makeRequest_localhost env_of_def mixed_events_def Let_def upt_rec)


lemma two_calls_resolve: "\<exists>final. testEndpoint_calls URL_basic new_LoadTester two_calls = Resolved final"
  by (simp add: two_calls_def testEndpoint_def makeRequest_localhost env_of_def mixed_events_def
        Let_def upt_rec)

lemmas batch_eval = testEndpoint_def makeRequest_localhost env_of_def mixed_events_def
  steady_events_def Let_def
  upt_rec returned_def

lemma empty_batch_resolves:
  "\<exists>r this'. testEndpoint URL_new this target 0 perUser env = Resolved (r, this')"
  by (simp add: testEndpoint_def Let_def)

lemma single_request_resolves:
  "\<exists>r this'. testEndpoint URL_basic this ''http://localhost:3000/api/health'' 1 1
                (env_of (steady_events t) t_start t_end) = Resolved (r, this')"
  by (simp add: batch_eval)

lemma concat_map_const:
  "concat (map (\<lambda>user. map (\<lambda>request. c) [0..<m]) [0..<n]) = replicate (n * m) c"
proof (induction n)
  case 0
  show ?case by simp
next
  case (Suc n)
  have row: "map (\<lambda>request. c) [0..<m] = replicate m c"
    by (simp add: map_replicate_const)
  have "concat (map (\<lambda>user. map (\<lambda>request. c) [0..<m]) [0..<Suc n])
        = replicate (n * m) c @ replicate m c"
    using Suc row by simp
  also have "\<dots> = replicate (n * m + m) c"
    by (simp add: replicate_add)
  finally show ?case by (simp add: add.commute)
qed

lemma Promise_all_replicate: "Promise_all (replicate n (Resolved v)) = Resolved (replicate n v)"
  by (induction n) simp_all



lemma steady_batch_result:
  "\<exists>r this'.
     testEndpoint URL_basic this ''http://localhost:3000/api/health'' users perUser
       (env_of (steady_events t) t_start t_end) = Resolved (r, this') \<and>
     totalRequests r = users * perUser \<and>
     avgResponseTime r =
       js_div64 (Num (foldl (\<lambda>a b. fl64 (a + b)) 0 (replicate (users * perUser) t)))
                (Num (real (users * perUser))) \<and>
     maxResponseTime r = Math_max (replicate (users * perUser) t) \<and>
     minResponseTime r = Math_min (replicate (users * perUser) t) \<and>
     errorRate r = js_mul (js_div (Num 0) (Num (real (users * perUser)))) (Num 100)"
  by (simp add: testEndpoint_def makeRequest_localhost env_of_def steady_events_def
        concat_map_const Promise_all_replicate Let_def
        del: of_nat_mult of_nat_eq_0_iff)


section \<open>Request counts\<close>

lemma testEndpoint_keeps_counts:
  assumes "testEndpoint URL_new this target users perUser env = Resolved (r, this')"
    and "successfulRequests (summary this) + failedRequests (summary this) = totalRequests (summary this)"
  shows "successfulRequests (summary this') + failedRequests (summary this') = totalRequests (summary this')"
proof -
  from testEndpoint_Resolved [OF assms(1)] obtain results :: "outcome list" where
    "totalRequests (summary this') = totalRequests (summary this) + length results"
    "successfulRequests (summary this') = successfulRequests (summary this) + length (filter success results)"
    "failedRequests (summary this') = failedRequests (summary this) + length (filter (\<lambda>x. \<not> success x) results)"
    by blast
  moreover have "length (filter success results) + length (filter (\<lambda>x. \<not> success x) results) = length results"
    by (rule sum_length_filter_compl)
  ultimately show ?thesis using assms(2) by simp
qed

lemma testEndpoint_calls_keep_counts:
  assumes "testEndpoint_calls URL_new this calls = Resolved final"
    and "successfulRequests (summary this) + failedRequests (summary this) = totalRequests (summary this)"
  shows "successfulRequests (summary final) + failedRequests (summary final) = totalRequests (summary final)"
  using assms
proof (induction calls arbitrary: this)
  case Nil
  then show ?case by simp
next
  case (Cons c cs)
  from Cons.prems(1) obtain r this' where
    step: "testEndpoint URL_new this (call_url c) (call_users c) (call_perUser c) (call_env c) = Resolved (r, this')"
    and rest: "testEndpoint_calls URL_new this' cs = Resolved final"
    by (auto simp: await_Resolved)
  from testEndpoint_keeps_counts [OF step Cons.prems(2)] Cons.IH [OF rest] show ?case by simp
qed

text \<open>
  Claim C9. Every batch result that \<open>testEndpoint\<close> returns satisfies
  \<open>successfulRequests + failedRequests = totalRequests\<close>; a call of \<open>testEndpoint\<close>
  preserves the same equation on the tester's running summary, and so the summary
  satisfies it after any sequence of calls on a fresh \<open>LoadTester\<close>.
\<close>

theorem counts_add_up:
  "(testEndpoint URL_new this target users perUser env = Resolved (r, this') \<longrightarrow>
      successfulRequests r + failedRequests r = totalRequests r \<and>
      (successfulRequests (summary this) + failedRequests (summary this) = totalRequests (summary this) \<longrightarrow>
       successfulRequests (summary this') + failedRequests (summary this') = totalRequests (summary this'))) \<and>
   (testEndpoint_calls URL_new new_LoadTester calls = Resolved final \<longrightarrow>
      successfulRequests (summary final) + failedRequests (summary final) = totalRequests (summary final))"
proof -
  have batch: "successfulRequests r + failedRequests r = totalRequests r"
    if "testEndpoint URL_new this target users perUser env = Resolved (r, this')"
  proof -
    from testEndpoint_Resolved [OF that] obtain results :: "outcome list" where
      "totalRequests r = length results"
      "successfulRequests r = length (filter success results)"
      "failedRequests r = length (filter (\<lambda>x. \<not> success x) results)"
      by blast
    then show ?thesis using sum_length_filter_compl [of success results] by simp
  qed
  have init: "successfulRequests (summary new_LoadTester) + failedRequests (summary new_LoadTester)
              = totalRequests (summary new_LoadTester)"
    by (simp add: new_LoadTester_def)
  show ?thesis
    using batch testEndpoint_keeps_counts testEndpoint_calls_keep_counts [OF _ init] by blast
qed

theorem counts_add_up_witness:
  "\<exists>r this' final.
     testEndpoint URL_basic new_LoadTester ''http://localhost:3000/api/health'' 1 2
       (env_of mixed_events 0 100) = Resolved (r, this') \<and>
     successfulRequests r + failedRequests r = totalRequests r \<and>
     successfulRequests (summary this') + failedRequests (summary this') = totalRequests (summary this') \<and>
     testEndpoint_calls URL_basic new_LoadTester two_calls = Resolved final \<and>
     successfulRequests (summary final) + failedRequests (summary final) = totalRequests (summary final)"
proof -
  obtain r this' where b: "testEndpoint URL_basic new_LoadTester ''http://localhost:3000/api/health'' 1 2
       (env_of mixed_events 0 100) = Resolved (r, this')"
    using mixed_batch_resolves [of new_LoadTester] by blast
  obtain final where c: "testEndpoint_calls URL_basic new_LoadTester two_calls = Resolved final"
    using two_calls_resolve by blast
  have i: "successfulRequests (summary new_LoadTester) + failedRequests (summary new_LoadTester)
           = totalRequests (summary new_LoadTester)"
    by (simp add: new_LoadTester_def)
  from counts_add_up [of URL_basic new_LoadTester "''http://localhost:3000/api/health''" 1 2
         "env_of mixed_events 0 100" r this' two_calls final] b c i
  show ?thesis by blast
qed

section \<open>Latency summary\<close>

lemma Math_max_nonempty: "xs \<noteq> [] \<Longrightarrow> Math_max xs = Num (Max (set xs))"
proof (cases xs)
  case (Cons a rest)
  then show ?thesis using Max.set_eq_fold [of a rest] by (simp add: Math_max_def)
qed simp

lemma Math_min_nonempty: "xs \<noteq> [] \<Longrightarrow> Math_min xs = Num (Min (set xs))"
proof (cases xs)
  case (Cons a rest)
  then show ?thesis using Min.set_eq_fold [of a rest] by (simp add: Math_min_def)
qed simp

lemma sum_list_upper: "(\<And>x. x \<in> set xs \<Longrightarrow> x \<le> m) \<Longrightarrow> sum_list xs \<le> real (length xs) * m"
  by (induction xs) (auto simp: algebra_simps add_mono)

lemma sum_list_lower: "(\<And>x. x \<in> set xs \<Longrightarrow> m \<le> x) \<Longrightarrow> real (length xs) * m \<le> sum_list xs"
  by (induction xs) (auto simp: algebra_simps add_mono)

lemma average_between:
  assumes "xs \<noteq> []"
  shows "Min (set xs) \<le> sum_list xs / real (length xs)"
    and "sum_list xs / real (length xs) \<le> Max (set xs)"
proof -
  have n: "0 < real (length xs)" using assms by simp
  have "real (length xs) * Min (set xs) \<le> sum_list xs"
    by (rule sum_list_lower) simp
  with n show "Min (set xs) \<le> sum_list xs / real (length xs)"
    by (simp add: pos_le_divide_eq mult.commute)
  have "sum_list xs \<le> real (length xs) * Max (set xs)"
    by (rule sum_list_upper) simp
  with n show "sum_list xs / real (length xs) \<le> Max (set xs)"
    by (simp add: pos_divide_le_eq mult.commute)
qed


lemma rounded_sum_bounds:
  assumes "\<And>x. x \<in> set xs \<Longrightarrow> 0 \<le> x" and "0 \<le> a"
  shows "(a + sum_list xs) * (1 - 1 / 2 ^ 53) ^ length xs \<le> foldl (\<lambda>a b. fl64 (a + b)) a xs \<and>
         foldl (\<lambda>a b. fl64 (a + b)) a xs \<le> (a + sum_list xs) * (1 + 1 / 2 ^ 53) ^ length xs"
  using assms
proof (induction xs arbitrary: a)
  case Nil
  show ?case by simp
next
  case (Cons x xs)
  have x: "0 \<le> x" and xs: "\<And>y. y \<in> set xs \<Longrightarrow> 0 \<le> y" using Cons.prems(1) by simp_all
  have ax: "0 \<le> a + x" using x Cons.prems(2) by simp
  have s: "0 \<le> sum_list xs" using xs by (simp add: sum_list_nonneg)
  have f: "0 \<le> fl64 (a + x)" by (rule fl64_nonneg [OF ax])
  let ?u = "1 / 2 ^ 53 :: real"
  let ?k = "length xs"
  note IH = Cons.IH [OF xs f]
  have "(a + sum_list (x # xs)) * (1 - ?u) ^ length (x # xs)
        = ((a + x) * (1 - ?u) + sum_list xs * (1 - ?u)) * (1 - ?u) ^ ?k"
    by (simp add: algebra_simps)
  also have "\<dots> \<le> (fl64 (a + x) + sum_list xs) * (1 - ?u) ^ ?k"
  proof (rule mult_right_mono)
    have "sum_list xs * (1 - ?u) \<le> sum_list xs * 1"
      using s by (intro mult_left_mono) simp_all
    then have "sum_list xs * (1 - ?u) \<le> sum_list xs" by (simp only: mult_1_right)
    with fl64_lower [OF ax]
    show "(a + x) * (1 - ?u) + sum_list xs * (1 - ?u) \<le> fl64 (a + x) + sum_list xs"
      by (rule add_mono)
    show "0 \<le> (1 - ?u) ^ ?k" by simp
  qed
  also have "\<dots> \<le> foldl (\<lambda>a b. fl64 (a + b)) (fl64 (a + x)) xs"
    using IH by simp
  finally have lower: "(a + sum_list (x # xs)) * (1 - ?u) ^ length (x # xs)
                       \<le> foldl (\<lambda>a b. fl64 (a + b)) a (x # xs)"
    by simp
  have "foldl (\<lambda>a b. fl64 (a + b)) (fl64 (a + x)) xs \<le> (fl64 (a + x) + sum_list xs) * (1 + ?u) ^ ?k"
    using IH by simp
  also have "\<dots> \<le> ((a + x) * (1 + ?u) + sum_list xs * (1 + ?u)) * (1 + ?u) ^ ?k"
  proof (rule mult_right_mono)
    have "sum_list xs * 1 \<le> sum_list xs * (1 + ?u)"
      using s by (intro mult_left_mono) simp_all
    then have "sum_list xs \<le> sum_list xs * (1 + ?u)" by (simp only: mult_1_right)
    with fl64_upper [OF ax]
    show "fl64 (a + x) + sum_list xs \<le> (a + x) * (1 + ?u) + sum_list xs * (1 + ?u)"
      by (rule add_mono)
    show "0 \<le> (1 + ?u) ^ ?k" by simp
  qed
  also have "\<dots> = (a + sum_list (x # xs)) * (1 + ?u) ^ length (x # xs)"
    by (simp add: algebra_simps)
  finally have upper: "foldl (\<lambda>a b. fl64 (a + b)) a (x # xs)
                       \<le> (a + sum_list (x # xs)) * (1 + ?u) ^ length (x # xs)"
    by simp
  from lower upper show ?case by blast
qed

lemma rounded_mean_between:
  assumes "xs \<noteq> []" and "0 \<le> Min (set xs)"
  shows "Min (set xs) * (1 - 1 / 2 ^ 53) ^ (length xs + 1)
           \<le> fl64 (foldl (\<lambda>a b. fl64 (a + b)) 0 xs / real (length xs))"
    and "fl64 (foldl (\<lambda>a b. fl64 (a + b)) 0 xs / real (length xs))
           \<le> Max (set xs) * (1 + 1 / 2 ^ 53) ^ (length xs + 1)"
proof -
  let ?u = "1 / 2 ^ 53 :: real"
  let ?n = "real (length xs)"
  let ?S = "foldl (\<lambda>a b. fl64 (a + b)) 0 xs"
  have n: "0 < ?n" using assms(1) by simp
  have pos: "\<And>x. x \<in> set xs \<Longrightarrow> 0 \<le> x"
    using assms(2) by (meson List.finite_set Min_le order_trans)
  have lo: "sum_list xs * (1 - ?u) ^ length xs \<le> ?S"
    and hi: "?S \<le> sum_list xs * (1 + ?u) ^ length xs"
    using rounded_sum_bounds [of xs 0] pos by simp_all
  have S: "0 \<le> ?S / ?n"
  proof -
    have "0 \<le> sum_list xs * (1 - ?u) ^ length xs"
      using pos by (intro mult_nonneg_nonneg sum_list_nonneg) simp_all
    with lo have "0 \<le> ?S" by linarith
    then show ?thesis by simp
  qed
  have "Min (set xs) * (1 - ?u) ^ (length xs + 1)
        = (Min (set xs) * (1 - ?u) ^ length xs) * (1 - ?u)" by simp
  also have "\<dots> \<le> (sum_list xs / ?n * (1 - ?u) ^ length xs) * (1 - ?u)"
    using average_between(1) [OF assms(1)] by (intro mult_right_mono) simp_all
  also have "\<dots> = (sum_list xs * (1 - ?u) ^ length xs) / ?n * (1 - ?u)" by simp
  also have "\<dots> \<le> ?S / ?n * (1 - ?u)"
    using lo n by (intro mult_right_mono divide_right_mono) simp_all
  also have "\<dots> \<le> fl64 (?S / ?n)" by (rule fl64_lower [OF S])
  finally show "Min (set xs) * (1 - ?u) ^ (length xs + 1) \<le> fl64 (?S / ?n)" .
  have "fl64 (?S / ?n) \<le> ?S / ?n * (1 + ?u)" by (rule fl64_upper [OF S])
  also have "\<dots> \<le> (sum_list xs * (1 + ?u) ^ length xs) / ?n * (1 + ?u)"
    using hi n by (intro mult_right_mono divide_right_mono) simp_all
  also have "\<dots> = (sum_list xs / ?n * (1 + ?u) ^ length xs) * (1 + ?u)" by simp
  also have "\<dots> \<le> (Max (set xs) * (1 + ?u) ^ length xs) * (1 + ?u)"
    using average_between(2) [OF assms(1)] by (intro mult_right_mono) simp_all
  also have "\<dots> = Max (set xs) * (1 + ?u) ^ (length xs + 1)" by simp
  finally show "fl64 (?S / ?n) \<le> Max (set xs) * (1 + ?u) ^ (length xs + 1)" .
qed

lemma rounded_mean_three_tenths:
  "js_div64
     (Num (foldl (\<lambda>a b. fl64 (a + b)) 0 (replicate 3 (7205759403792794 / 2 ^ 56))))
     (Num (real (3::nat)))
   = Num (7205759403792795 / 2 ^ 56)"
proof -
  define d :: real where "d = 7205759403792794 / 2 ^ 56"
  define d2 :: real where "d2 = 3602879701896397 / 18014398509481984"
  define d3 :: real where "d3 = 1351079888211149 / 4503599627370496"
  have s1: "fl64 (0 + d) = d"
    using fl64_eval [of "-4" d] by (simp add: d_def round_half_even_def)
  have s2: "fl64 (d + d) = d2"
    using fl64_eval [of "-3" "d + d"] by (simp add: d_def d2_def round_half_even_def)
  have s3: "fl64 (d2 + d) = d3"
    using fl64_eval [of "-2" "d2 + d"] by (simp add: d_def d2_def d3_def round_half_even_def)
  have q: "fl64 (d3 / 3) = 7205759403792795 / 2 ^ 56"
    using fl64_eval [of "-4" "d3 / 3"] by (simp add: d3_def round_half_even_def)
  have "replicate 3 d = [d, d, d]" by (simp add: numeral_3_eq_3)
  then have "foldl (\<lambda>a b. fl64 (a + b)) 0 (replicate 3 d) = d3"
    by (simp only: foldl.simps s1 s2 s3)
  then have "js_div64 (Num (foldl (\<lambda>a b. fl64 (a + b)) 0 (replicate 3 d))) (Num (real (3::nat)))
             = Num (fl64 (d3 / 3))"
    by (simp add: js_div64_def)
  then show ?thesis by (simp only: q d_def)
qed

text \<open>
  Claim C10, as stated, fails: the average is computed in binary64 and can leave the
  interval between the minimum and the maximum. Three requests of 0.1 ms each (0.1 as
  binary64 has it, \<open>7205759403792794 / 2^56\<close>) sum to \<open>0.30000000000000004\<close>, and
  the third of that is \<open>0.10000000000000002\<close>, one unit in the last place above the
  maximum.
\<close>

theorem latency_summary_counterexample:
  "map_option avgResponseTime
     (returned (testEndpoint URL_basic new_LoadTester ''http://localhost:3000/api/health'' 1 3
                  (env_of (steady_events (7205759403792794 / 2 ^ 56)) 0 1)))
     = Some (Num (7205759403792795 / 2 ^ 56)) \<and>
   map_option maxResponseTime
     (returned (testEndpoint URL_basic new_LoadTester ''http://localhost:3000/api/health'' 1 3
                  (env_of (steady_events (7205759403792794 / 2 ^ 56)) 0 1)))
     = Some (Num (7205759403792794 / 2 ^ 56))"
proof -
  obtain r this' where
    b: "testEndpoint URL_basic new_LoadTester ''http://localhost:3000/api/health'' 1 3
          (env_of (steady_events (7205759403792794 / 2 ^ 56)) 0 1) = Resolved (r, this')"
    and avg: "avgResponseTime r =
       js_div64 (Num (foldl (\<lambda>a b. fl64 (a + b)) 0 (replicate (1 * 3) (7205759403792794 / 2 ^ 56))))
                (Num (real (1 * 3 :: nat)))"
    and mx: "maxResponseTime r = Math_max (replicate (1 * 3) (7205759403792794 / 2 ^ 56))"
    using steady_batch_result [of new_LoadTester 1 3 "7205759403792794 / 2 ^ 56" 0 1] by blast
  have a: "avgResponseTime r = Num (7205759403792795 / 2 ^ 56)"
    using rounded_mean_three_tenths by (simp only: avg mult_1)
  have m: "maxResponseTime r = Num (7205759403792794 / 2 ^ 56)"
    by (simp add: mx Math_max_def numeral_3_eq_3)
  have ret: "returned (testEndpoint URL_basic new_LoadTester ''http://localhost:3000/api/health'' 1 3
                  (env_of (steady_events (7205759403792794 / 2 ^ 56)) 0 1)) = Some r"
    unfolding b returned_def by simp
  show ?thesis unfolding ret using a m by simp
qed

text \<open>
  Claim C10, amended. Every batch result that \<open>testEndpoint\<close> returns with
  \<open>totalRequests = n \<ge> 1\<close> has finite minimum, average and maximum latencies with
  \<open>minResponseTime \<le> maxResponseTime\<close>, and, latencies being non-negative, the average
  lies between them up to the rounding of its \<open>n\<close> additions and one division:
  \<open>minResponseTime * (1 - 2^-53)^(n+1) \<le> avgResponseTime \<le>
  maxResponseTime * (1 + 2^-53)^(n+1)\<close>.
\<close>

theorem latency_summary_rounded:
  assumes "testEndpoint URL_new this target users perUser env = Resolved (r, this')"
    and "1 \<le> totalRequests r"
  shows "\<exists>lo a hi. minResponseTime r = Num lo \<and> avgResponseTime r = Num a \<and>
           maxResponseTime r = Num hi \<and> lo \<le> hi \<and>
           (0 \<le> lo \<longrightarrow>
              lo * (1 - 1 / 2 ^ 53) ^ (totalRequests r + 1) \<le> a \<and>
              a \<le> hi * (1 + 1 / 2 ^ 53) ^ (totalRequests r + 1))"
proof -
  from testEndpoint_Resolved [OF assms(1)] obtain results :: "outcome list" where
    n: "totalRequests r = length results"
    and avg: "avgResponseTime r =
             js_div64 (Num (foldl (\<lambda>a b. fl64 (a + b)) 0 (map responseTime results)))
                      (Num (real (length results)))"
    and mx: "maxResponseTime r = Math_max (map responseTime results)"
    and mn: "minResponseTime r = Math_min (map responseTime results)"
    by blast
  define xs where "xs = map responseTime results"
  have ne: "xs \<noteq> []" using assms(2) n by (auto simp: xs_def)
  have len: "length results = length xs" by (simp add: xs_def)
  have a: "avgResponseTime r = Num (fl64 (foldl (\<lambda>a b. fl64 (a + b)) 0 xs / real (length xs)))"
    using ne by (simp add: avg len xs_def [symmetric] js_div64_def)
  have hi: "maxResponseTime r = Num (Max (set xs))"
    using Math_max_nonempty [OF ne] by (simp add: mx xs_def)
  have lo: "minResponseTime r = Num (Min (set xs))"
    using Math_min_nonempty [OF ne] by (simp add: mn xs_def)
  have order: "Min (set xs) \<le> Max (set xs)"
    using ne by (meson List.finite_set Max_ge Min_le order_trans last_in_set)
  show ?thesis
    using a hi lo order rounded_mean_between [OF ne] by (simp add: n len)
qed


theorem latency_summary_rounded_witness:
  "\<exists>r this' lo a hi.
     testEndpoint URL_basic new_LoadTester ''http://localhost:3000/api/health'' 1 2
       (env_of mixed_events 0 100) = Resolved (r, this') \<and> totalRequests r = 2 \<and>
     minResponseTime r = Num lo \<and> avgResponseTime r = Num a \<and> maxResponseTime r = Num hi \<and>
     lo = 50 \<and> lo \<le> hi \<and>
     lo * (1 - 1 / 2 ^ 53) ^ 3 \<le> a \<and> a \<le> hi * (1 + 1 / 2 ^ 53) ^ 3"
proof -
  obtain r this' where b: "testEndpoint URL_basic new_LoadTester ''http://localhost:3000/api/health'' 1 2
       (env_of mixed_events 0 100) = Resolved (r, this')"
    using mixed_batch_resolves [of new_LoadTester] by blast
  then have n: "totalRequests r = 2" and lo: "minResponseTime r = Num 50"
    by (auto simp: batch_eval Math_min_def)
  have one: "1 \<le> totalRequests r" using n by simp
  from latency_summary_rounded [OF b one] obtain lo' a hi where
    f: "minResponseTime r = Num lo'" "avgResponseTime r = Num a" "maxResponseTime r = Num hi"
       "lo' \<le> hi"
       "0 \<le> lo' \<longrightarrow>
              lo' * (1 - 1 / 2 ^ 53) ^ (totalRequests r + 1) \<le> a \<and>
              a \<le> hi * (1 + 1 / 2 ^ 53) ^ (totalRequests r + 1)"
    by blast
  from f(1) lo have l: "lo' = 50" by simp
  with f(5) have "lo' * (1 - 1 / 2 ^ 53) ^ 3 \<le> a \<and> a \<le> hi * (1 + 1 / 2 ^ 53) ^ 3"
    by (simp only: n) simp
  with b n f l show ?thesis by blast
qed

section \<open>Error rate and throughput\<close>

text \<open>
  Claim C4, as stated, fails: the error rate of a batch without requests is not 0. With
  no users the batch is empty and \<open>(failed.length / results.length) * 100\<close> is
  \<open>0 / 0 * 100\<close>, that is \<open>NaN\<close>.
\<close>

theorem error_rate_counterexample:
  "map_option totalRequests
     (returned (testEndpoint URL_basic new_LoadTester ''http://localhost:3000/api/health'' 0 5
                  (env_of mixed_events 0 1))) = Some 0 \<and>
   map_option errorRate
     (returned (testEndpoint URL_basic new_LoadTester ''http://localhost:3000/api/health'' 0 5
                  (env_of mixed_events 0 1))) = Some NaN"
  by (simp add: batch_eval)

text \<open>
  Claim C4, amended. For every batch result that \<open>testEndpoint\<close> returns, \<open>errorRate\<close>
  is \<open>100 * failedRequests / totalRequests\<close> when \<open>totalRequests > 0\<close>; when
  \<open>totalRequests = 0\<close> the division is not guarded and \<open>errorRate\<close> is \<open>NaN\<close>.
  \<open>generateReport\<close> computes the summary's error rate in the same way from the summed counts.
\<close>

theorem error_rate:
  "(testEndpoint URL_new this target users perUser env = Resolved (r, this') \<longrightarrow>
      (0 < totalRequests r \<longrightarrow>
         errorRate r = Num (100 * real (failedRequests r) / real (totalRequests r))) \<and>
      (totalRequests r = 0 \<longrightarrow> errorRate r = NaN)) \<and>
   (0 < totalRequests (summary this) \<longrightarrow>
      errorRate (report_summary (generateReport this)) =
        Num (100 * real (failedRequests (summary this)) / real (totalRequests (summary this)))) \<and>
   (totalRequests (summary this) = 0 \<and> failedRequests (summary this) = 0 \<longrightarrow>
      errorRate (report_summary (generateReport this)) = NaN)"
proof -
  have batch: "(0 < totalRequests r \<longrightarrow>
         errorRate r = Num (100 * real (failedRequests r) / real (totalRequests r))) \<and>
      (totalRequests r = 0 \<longrightarrow> errorRate r = NaN)"
    if "testEndpoint URL_new this target users perUser env = Resolved (r, this')"
  proof -
    from testEndpoint_Resolved [OF that] obtain results :: "outcome list" where
      "totalRequests r = length results"
      "failedRequests r = length (filter (\<lambda>x. \<not> success x) results)"
      "errorRate r =
         js_mul (js_div (Num (real (length (filter (\<lambda>x. \<not> success x) results))))
                        (Num (real (length results))))
                (Num 100)"
      by blast
    then show ?thesis by auto
  qed
  have report: "(0 < totalRequests (summary this) \<longrightarrow>
      errorRate (report_summary (generateReport this)) =
        Num (100 * real (failedRequests (summary this)) / real (totalRequests (summary this)))) \<and>
   (totalRequests (summary this) = 0 \<and> failedRequests (summary this) = 0 \<longrightarrow>
      errorRate (report_summary (generateReport this)) = NaN)"
    by (simp add: generateReport_def Let_def)
  from batch report show ?thesis by blast
qed

theorem error_rate_witness:
  "\<exists>r this' r0 this0.
     testEndpoint URL_basic new_LoadTester ''http://localhost:3000/api/health'' 1 2
       (env_of mixed_events 0 100) = Resolved (r, this') \<and>
     totalRequests r = 2 \<and> errorRate r = Num 50 \<and>
     errorRate (report_summary (generateReport this')) = Num 50 \<and>
     testEndpoint URL_basic new_LoadTester ''http://localhost:3000/api/health'' 0 5
       (env_of mixed_events 0 1) = Resolved (r0, this0) \<and>
     totalRequests r0 = 0 \<and> errorRate r0 = NaN \<and>
     errorRate (report_summary (generateReport new_LoadTester)) = NaN"
proof -
  obtain r this' where b: "testEndpoint URL_basic new_LoadTester ''http://localhost:3000/api/health'' 1 2
       (env_of mixed_events 0 100) = Resolved (r, this')"
    using mixed_batch_resolves [of new_LoadTester] by blast
  then have counts: "totalRequests r = 2" "failedRequests r = 1"
    "totalRequests (summary this') = 2" "failedRequests (summary this') = 1"
    by (auto simp: batch_eval new_LoadTester_def)
  obtain r0 this0 where e: "testEndpoint URL_basic new_LoadTester ''http://localhost:3000/api/health'' 0 5
       (env_of mixed_events 0 1) = Resolved (r0, this0)"
    using empty_batch_resolves by blast
  then have none: "totalRequests r0 = 0"
    by (auto simp: testEndpoint_def Let_def)
  have fresh: "totalRequests (summary new_LoadTester) = 0 \<and> failedRequests (summary new_LoadTester) = 0"
    by (simp add: new_LoadTester_def)
  from error_rate [of URL_basic new_LoadTester "''http://localhost:3000/api/health''" 1 2
         "env_of mixed_events 0 100" r this'] b counts
  have "errorRate r = Num 50" by simp
  moreover from error_rate [of URL_basic this' "''http://localhost:3000/api/health''" 1 2
         "env_of mixed_events 0 100" r this'] counts
  have "errorRate (report_summary (generateReport this')) = Num 50" by simp
  moreover from error_rate [of URL_basic new_LoadTester "''http://localhost:3000/api/health''" 0 5
         "env_of mixed_events 0 1" r0 this0] e none fresh
  have "errorRate r0 = NaN \<and> errorRate (report_summary (generateReport new_LoadTester)) = NaN"
    by simp
  ultimately show ?thesis using b e counts none by blast
qed

text \<open>
  Claim C5, as stated, fails: the division is not guarded. A batch of one request whose
  two clock readings around \<open>Promise.all\<close> coincide has
  \<open>requestsPerSecond = 1 / (0 / 1000) = Infinity\<close>.
\<close>

theorem throughput_counterexample:
  "map_option requestsPerSecond
     (returned (testEndpoint URL_basic new_LoadTester ''http://localhost:3000/api/health'' 1 1
                  (env_of (steady_events 0) 50 50))) = Some PosInfinity"
  by (simp add: batch_eval)

text \<open>
  Claim C5, amended. For every batch result that \<open>testEndpoint\<close> returns,
  \<open>requestsPerSecond\<close> is \<open>totalRequests / (totalTime / 1000)\<close> with \<open>totalTime\<close>
  the elapsed time of the batch, and the division is not guarded: when the elapsed time is
  0 the value is \<open>Infinity\<close> for a batch with requests and \<open>NaN\<close> for an empty
  one. \<open>generateReport\<close> computes the summary's throughput in the same way.
\<close>

theorem throughput:
  "(testEndpoint URL_new this target users perUser env = Resolved (r, this') \<longrightarrow>
      totalTime r = batch_end env - batch_start env \<and>
      (totalTime r \<noteq> 0 \<longrightarrow>
         requestsPerSecond r = Num (real (totalRequests r) / (totalTime r / 1000))) \<and>
      (totalTime r = 0 \<and> 0 < totalRequests r \<longrightarrow> requestsPerSecond r = PosInfinity) \<and>
      (totalTime r = 0 \<and> totalRequests r = 0 \<longrightarrow> requestsPerSecond r = NaN)) \<and>
   (totalTime (summary this) \<noteq> 0 \<longrightarrow>
      requestsPerSecond (report_summary (generateReport this)) =
        Num (real (totalRequests (summary this)) / (totalTime (summary this) / 1000))) \<and>
   (totalTime (summary this) = 0 \<and> 0 < totalRequests (summary this) \<longrightarrow>
      requestsPerSecond (report_summary (generateReport this)) = PosInfinity) \<and>
   (totalTime (summary this) = 0 \<and> totalRequests (summary this) = 0 \<longrightarrow>
      requestsPerSecond (report_summary (generateReport this)) = NaN)"
proof -
  have batch: "totalTime r = batch_end env - batch_start env \<and>
      (totalTime r \<noteq> 0 \<longrightarrow>
         requestsPerSecond r = Num (real (totalRequests r) / (totalTime r / 1000))) \<and>
      (totalTime r = 0 \<and> 0 < totalRequests r \<longrightarrow> requestsPerSecond r = PosInfinity) \<and>
      (totalTime r = 0 \<and> totalRequests r = 0 \<longrightarrow> requestsPerSecond r = NaN)"
    if "testEndpoint URL_new this target users perUser env = Resolved (r, this')"
  proof -
    from testEndpoint_Resolved [OF that] obtain results :: "outcome list" where
      "totalRequests r = length results"
      "totalTime r = batch_end env - batch_start env"
      "requestsPerSecond r =
             js_div (Num (real (length results)))
                    (js_div (Num (batch_end env - batch_start env)) (Num 1000))"
      by blast
    then show ?thesis by auto
  qed
  have report: "(totalTime (summary this) \<noteq> 0 \<longrightarrow>
      requestsPerSecond (report_summary (generateReport this)) =
        Num (real (totalRequests (summary this)) / (totalTime (summary this) / 1000))) \<and>
   (totalTime (summary this) = 0 \<and> 0 < totalRequests (summary this) \<longrightarrow>
      requestsPerSecond (report_summary (generateReport this)) = PosInfinity) \<and>
   (totalTime (summary this) = 0 \<and> totalRequests (summary this) = 0 \<longrightarrow>
      requestsPerSecond (report_summary (generateReport this)) = NaN)"
    by (simp add: generateReport_def Let_def)
  from batch report show ?thesis by blast
qed


theorem throughput_witness:
  "\<exists>r this' r1 this1 r0 this0.
     testEndpoint URL_basic new_LoadTester ''http://localhost:3000/api/health'' 1 2
       (env_of mixed_events 0 100) = Resolved (r, this') \<and>
     requestsPerSecond r = Num 20 \<and>
     requestsPerSecond (report_summary (generateReport this')) = Num 20 \<and>
     testEndpoint URL_basic new_LoadTester ''http://localhost:3000/api/health'' 1 1
       (env_of (steady_events 0) 50 50) = Resolved (r1, this1) \<and>
     requestsPerSecond r1 = PosInfinity \<and>
     requestsPerSecond (report_summary (generateReport this1)) = PosInfinity \<and>
     testEndpoint URL_basic new_LoadTester ''http://localhost:3000/api/health'' 0 5
       (env_of (steady_events 0) 50 50) = Resolved (r0, this0) \<and>
     requestsPerSecond r0 = NaN \<and>
     requestsPerSecond (report_summary (generateReport new_LoadTester)) = NaN"
proof -
  obtain r this' where b: "testEndpoint URL_basic new_LoadTester ''http://localhost:3000/api/health'' 1 2
       (env_of mixed_events 0 100) = Resolved (r, this')"
    using mixed_batch_resolves [of new_LoadTester] by blast
  then have counts: "totalRequests r = 2" "totalTime r = 100"
    "totalRequests (summary this') = 2" "totalTime (summary this') = 100"
    by (auto simp: batch_eval new_LoadTester_def)
  obtain r1 this1 where s: "testEndpoint URL_basic new_LoadTester ''http://localhost:3000/api/health'' 1 1
       (env_of (steady_events 0) 50 50) = Resolved (r1, this1)"
    using single_request_resolves [of new_LoadTester 0 50 50] by blast
  then have one: "totalRequests r1 = 1" "totalTime r1 = 0"
    "totalRequests (summary this1) = 1" "totalTime (summary this1) = 0"
    by (auto simp: batch_eval new_LoadTester_def)
  obtain r0 this0 where e: "testEndpoint URL_basic new_LoadTester ''http://localhost:3000/api/health'' 0 5
       (env_of (steady_events 0) 50 50) = Resolved (r0, this0)"
    using empty_batch_resolves by blast
  then have none: "totalRequests r0 = 0" "totalTime r0 = 0"
    by (auto simp: testEndpoint_def Let_def env_of_def)
  have fresh: "totalRequests (summary new_LoadTester) = 0 \<and> totalTime (summary new_LoadTester) = 0"
    by (simp add: new_LoadTester_def)
  from throughput [of URL_basic new_LoadTester "''http://localhost:3000/api/health''" 1 2
         "env_of mixed_events 0 100" r this'] b counts
  have "requestsPerSecond r = Num 20" by simp
  moreover from throughput [of URL_basic this' "''http://localhost:3000/api/health''" 1 2
         "env_of mixed_events 0 100" r this'] counts
  have "requestsPerSecond (report_summary (generateReport this')) = Num 20" by simp
  moreover from throughput [of URL_basic new_LoadTester "''http://localhost:3000/api/health''" 1 1
         "env_of (steady_events 0) 50 50" r1 this1] s one
  have "requestsPerSecond r1 = PosInfinity" by simp
  moreover from throughput [of URL_basic this1 "''http://localhost:3000/api/health''" 1 1
         "env_of (steady_events 0) 50 50" r1 this1] one
  have "requestsPerSecond (report_summary (generateReport this1)) = PosInfinity" by simp
  moreover from throughput [of URL_basic new_LoadTester "''http://localhost:3000/api/health''" 0 5
         "env_of (steady_events 0) 50 50" r0 this0] e none fresh
  have "requestsPerSecond r0 = NaN \<and>
        requestsPerSecond (report_summary (generateReport new_LoadTester)) = NaN"
    by simp
  ultimately show ?thesis using b s e by blast
qed

section \<open>Stability score\<close>




section \<open>Spike test\<close>




section \<open>Request executor\<close>

lemma URL_basic_no_scheme:
  "URL_basic ''example.com/api/health'' = Inl (TypeError ''Invalid URL'')"
  by (simp add: URL_basic_def URL_scheme_def c0_or_space_def tab_or_newline_def ascii_alpha_def
        ascii_upper_alpha_def ascii_lower_alpha_def ascii_digit_def scheme_char_def
        ascii_lowercase_def)

text \<open>Whatever the URL constructor throws becomes the rejection of \<open>makeRequest\<close>'s promise.\<close>

lemma makeRequest_rejects_when_URL_throws:
  "URL_new target = Inl e \<Longrightarrow> makeRequest URL_new target m h b x = Rejected e"
  by (simp add: makeRequest_def)

text \<open>
  So does whatever \<open>protocol.request\<close>, \<open>req.write\<close> or \<open>req.end\<close> throws: none of them
  is guarded either.
\<close>

lemma makeRequest_rejects_when_request_throws:
  assumes "URL_new target = Inr parsedUrl"
    and "network x (protocol_module parsedUrl) (request_options_of parsedUrl m h) (written_body b)
           = RequestThrows e"
  shows "makeRequest URL_new target m h b x = Rejected e"
  using assms by (simp add: makeRequest_def)

text \<open>
  \<open>localhost:3000/my path\<close> parses as a URL of scheme \<open>localhost\<close> whose path keeps its
  space; the request is refused before it is sent and the promise is rejected.
\<close>

lemma URL_basic_opaque_path:
  "URL_basic ''localhost:3000/my path'' =
     Inr \<lparr>protocol = ''localhost:'', hostname = [], port = [],
          pathname = ''3000/my path'', search = []\<rparr>"
  by (simp add: URL_basic_def URL_scheme_def c0_or_space_def tab_or_newline_def ascii_alpha_def
        ascii_upper_alpha_def ascii_lower_alpha_def ascii_digit_def scheme_char_def
        ascii_lowercase_def)

lemma makeRequest_rejects_unescaped_path:
  "makeRequest URL_basic ''localhost:3000/my path'' ''GET'' Map.empty None
     (checked_exchange_of 0 (ResponseEnd 200 [] [''ok''] 50))
     = Rejected (TypeError ''Request path contains unescaped characters'')"
  by (simp add: makeRequest_def URL_basic_opaque_path checked_exchange_of_def
        request_options_of_def invalid_path_def)

text \<open>
  Claim C1, as stated, fails. \<open>makeRequest\<close> arms no timeout: when the peer never
  answers, neither handler runs and the promise stays pending, so this failure does not
  resolve to an outcome. Besides, \<open>new URL(url)\<close> is evaluated inside the promise's
  executor without a guard: for a string without a scheme it throws and the promise is
  rejected.
\<close>

theorem executor_settles_counterexample:
  "makeRequest URL_basic ''http://localhost:3000/api/health'' ''GET'' Map.empty None
     (exchange_of 0 NoEvent) = Pending \<and>
   makeRequest URL_basic ''example.com/api/health'' ''GET'' Map.empty None
     (exchange_of 0 (ResponseEnd 200 [] [''ok''] 50)) = Rejected (TypeError ''Invalid URL'')"
  by (simp add: makeRequest_localhost) (simp add: makeRequest_def URL_basic_no_scheme)

text \<open>
  Claim C1, amended. \<open>makeRequest\<close> rejects in two cases only, and then with what was
  thrown: when the URL constructor throws, and, for a URL it accepts, when building or
  sending the request (\<open>protocol.request\<close>, \<open>req.write\<close>, \<open>req.end\<close>) throws
  synchronously. For a URL that the constructor accepts and a request that is built
  without a throw it never rejects: when the response ends it resolves to an outcome with
  \<open>success = (status < 400)\<close>; when the request emits an error it resolves to an
  outcome with \<open>success = false\<close>, status code 0 and the error's message; in both the
  latency \<open>responseTime\<close> is measured from the start of the call up to the event. When
  neither event occurs the promise stays pending (no timeout is armed).
  \<open>executeQuery\<close> always resolves: to a successful outcome when the query returns, and
  to an outcome with \<open>success = false\<close> and the error's message when acquiring the
  connection or executing the query throws, with \<open>queryTime\<close> measured up to that point.
\<close>

theorem executor_settles:
  "(\<forall>e. URL_new target = Inl e \<longrightarrow> makeRequest URL_new target m h b x = Rejected e) \<and>
   (URL_new target = Inr parsedUrl \<longrightarrow>
      (\<forall>e. makeRequest URL_new target m h b x = Rejected e \<longleftrightarrow>
           network x (protocol_module parsedUrl) (request_options_of parsedUrl m h) (written_body b)
             = RequestThrows e) \<and>
      ((\<forall>e. network x (protocol_module parsedUrl) (request_options_of parsedUrl m h)
               (written_body b) \<noteq> RequestThrows e) \<longrightarrow>
       (\<forall>e. makeRequest URL_new target m h b x \<noteq> Rejected e)) \<and>
      (\<forall>status response_headers chunks endTime.
         network x (protocol_module parsedUrl) (request_options_of parsedUrl m h) (written_body b)
           = ResponseEnd status response_headers chunks endTime \<longrightarrow>
         (\<exists>out. makeRequest URL_new target m h b x = Resolved out \<and>
                (success out \<longleftrightarrow> status < 400) \<and> statusCode out = status \<and>
                responseTime out = endTime - clock_start x)) \<and>
      (\<forall>message endTime.
         network x (protocol_module parsedUrl) (request_options_of parsedUrl m h) (written_body b)
           = RequestError message endTime \<longrightarrow>
         (\<exists>out. makeRequest URL_new target m h b x = Resolved out \<and>
                \<not> success out \<and> error out = Some message \<and> statusCode out = 0 \<and>
                responseTime out = endTime - clock_start x)) \<and>
      (network x (protocol_module parsedUrl) (request_options_of parsedUrl m h) (written_body b)
           = NoEvent \<longrightarrow>
         makeRequest URL_new target m h b x = Pending)) \<and>
   (\<exists>out. executeQuery query params dx = Resolved out \<and>
      (\<forall>rows endTime. database dx query params = ExecuteReturns rows endTime \<longrightarrow>
         success out \<and> queryTime out = endTime - db_clock_start dx) \<and>
      (\<forall>message endTime.
         database dx query params = GetConnectionThrows message endTime \<or>
         database dx query params = ExecuteThrows message endTime \<longrightarrow>
         \<not> success out \<and> error out = Some message \<and>
         queryTime out = endTime - db_clock_start dx))"
proof -
  have url_part: "\<forall>e. URL_new target = Inl e \<longrightarrow> makeRequest URL_new target m h b x = Rejected e"
    by (simp add: makeRequest_def)
  have http_part: "URL_new target = Inr parsedUrl \<longrightarrow>
      (\<forall>e. makeRequest URL_new target m h b x = Rejected e \<longleftrightarrow>
           network x (protocol_module parsedUrl) (request_options_of parsedUrl m h) (written_body b)
             = RequestThrows e) \<and>
      ((\<forall>e. network x (protocol_module parsedUrl) (request_options_of parsedUrl m h)
               (written_body b) \<noteq> RequestThrows e) \<longrightarrow>
       (\<forall>e. makeRequest URL_new target m h b x \<noteq> Rejected e)) \<and>
      (\<forall>status response_headers chunks endTime.
         network x (protocol_module parsedUrl) (request_options_of parsedUrl m h) (written_body b)
           = ResponseEnd status response_headers chunks endTime \<longrightarrow>
         (\<exists>out. makeRequest URL_new target m h b x = Resolved out \<and>
                (success out \<longleftrightarrow> status < 400) \<and> statusCode out = status \<and>
                responseTime out = endTime - clock_start x)) \<and>
      (\<forall>message endTime.
         network x (protocol_module parsedUrl) (request_options_of parsedUrl m h) (written_body b)
           = RequestError message endTime \<longrightarrow>
         (\<exists>out. makeRequest URL_new target m h b x = Resolved out \<and>
                \<not> success out \<and> error out = Some message \<and> statusCode out = 0 \<and>
                responseTime out = endTime - clock_start x)) \<and>
      (network x (protocol_module parsedUrl) (request_options_of parsedUrl m h) (written_body b)
           = NoEvent \<longrightarrow>
         makeRequest URL_new target m h b x = Pending)"
    by (cases "network x (protocol_module parsedUrl) (request_options_of parsedUrl m h) (written_body b)")
       (simp_all add: makeRequest_def)
  have db_part: "\<exists>out. executeQuery query params dx = Resolved out \<and>
      (\<forall>rows endTime. database dx query params = ExecuteReturns rows endTime \<longrightarrow>
         success out \<and> queryTime out = endTime - db_clock_start dx) \<and>
      (\<forall>message endTime.
         database dx query params = GetConnectionThrows message endTime \<or>
         database dx query params = ExecuteThrows message endTime \<longrightarrow>
         \<not> success out \<and> error out = Some message \<and>
         queryTime out = endTime - db_clock_start dx)"
    by (cases "database dx query params") (simp_all add: executeQuery_def)
  from url_part http_part db_part show ?thesis by blast
qed

theorem executor_settles_witness:
  "(\<exists>out. makeRequest URL_basic ''http://localhost:3000/api/health'' ''GET'' Map.empty None
            (exchange_of 10 (ResponseEnd 200 [] [''ok''] 60)) = Resolved out \<and>
          success out \<and> responseTime out = 50) \<and>
   (\<exists>out. makeRequest URL_basic ''http://localhost:3000/api/health'' ''GET'' Map.empty None
            (exchange_of 10 (ResponseEnd 404 [] [] 60)) = Resolved out \<and>
          \<not> success out \<and> responseTime out = 50) \<and>
   (\<exists>out. makeRequest URL_basic ''http://localhost:3000/api/health'' ''GET'' Map.empty None
            (exchange_of 10 (RequestError ''ECONNREFUSED'' 12)) = Resolved out \<and>
          \<not> success out \<and> responseTime out = 2) \<and>
   makeRequest URL_basic ''http://localhost:3000/api/health'' ''GET'' Map.empty None
     (exchange_of 10 NoEvent) = Pending \<and>
   (\<forall>e. makeRequest URL_basic ''http://localhost:3000/api/health'' ''GET'' Map.empty None
     (exchange_of 10 (RequestError ''ECONNREFUSED'' 12)) \<noteq> Rejected e) \<and>
   makeRequest URL_basic ''localhost:3000/my path'' ''GET'' Map.empty None
     (checked_exchange_of 10 (ResponseEnd 200 [] [''ok''] 60))
     = Rejected (TypeError ''Request path contains unescaped characters'') \<and>
   makeRequest URL_basic ''example.com/api/health'' ''GET'' Map.empty None
     (exchange_of 10 (ResponseEnd 200 [] [''ok''] 60)) = Rejected (TypeError ''Invalid URL'') \<and>
   (\<exists>out. executeQuery ''SELECT 1'' [] (db_exchange_of 5 (ExecuteReturns (RowArray [''1'']) 8))
            = Resolved out \<and> success out \<and> queryTime out = 3) \<and>
   (\<exists>out. executeQuery ''SELECT 1'' [] (db_exchange_of 5 (ExecuteThrows ''ER_PARSE_ERROR'' 6))
            = Resolved out \<and> \<not> success out \<and> queryTime out = 1) \<and>
   (\<exists>out. executeQuery ''SELECT 1'' [] (db_exchange_of 5 (GetConnectionThrows ''ETIMEDOUT'' 65))
            = Resolved out \<and> \<not> success out \<and> queryTime out = 60)"
proof -
  let ?u = "''http://localhost:3000/api/health''"
  let ?p = "\<lparr>protocol = ''http:'', hostname = ''localhost'', port = ''3000'',
             pathname = ''/api/health'', search = []\<rparr>"
  let ?t = "TypeError ''Request path contains unescaped characters''"
  have p: "URL_basic ?u = Inr ?p" by (rule URL_basic_localhost)
  note E = executor_settles [where URL_new = URL_basic and target = ?u and parsedUrl = ?p
      and m = "''GET''" and h = Map.empty and b = None and query = "''SELECT 1''" and params = "[]"]
  from E [where x = "exchange_of 10 (ResponseEnd 200 [] [''ok''] 60)"
            and dx = "db_exchange_of 5 (ExecuteReturns (RowArray [''1'']) 8)"] p
  have a: "(\<exists>out. makeRequest URL_basic ?u ''GET'' Map.empty None
            (exchange_of 10 (ResponseEnd 200 [] [''ok''] 60)) = Resolved out \<and>
          success out \<and> responseTime out = 50) \<and>
        (\<exists>out. executeQuery ''SELECT 1'' [] (db_exchange_of 5 (ExecuteReturns (RowArray [''1'']) 8))
            = Resolved out \<and> success out \<and> queryTime out = 3)"
    by (simp add: exchange_of_def db_exchange_of_def) blast
  from E [where x = "exchange_of 10 (ResponseEnd 404 [] [] 60)"
            and dx = "db_exchange_of 5 (ExecuteThrows ''ER_PARSE_ERROR'' 6)"] p
  have b: "(\<exists>out. makeRequest URL_basic ?u ''GET'' Map.empty None
            (exchange_of 10 (ResponseEnd 404 [] [] 60)) = Resolved out \<and>
          \<not> success out \<and> responseTime out = 50) \<and>
        (\<exists>out. executeQuery ''SELECT 1'' [] (db_exchange_of 5 (ExecuteThrows ''ER_PARSE_ERROR'' 6))
            = Resolved out \<and> \<not> success out \<and> queryTime out = 1)"
    by (simp add: exchange_of_def db_exchange_of_def) blast
  from E [where x = "exchange_of 10 (RequestError ''ECONNREFUSED'' 12)"
            and dx = "db_exchange_of 5 (GetConnectionThrows ''ETIMEDOUT'' 65)"] p
  have c: "(\<exists>out. makeRequest URL_basic ?u ''GET'' Map.empty None
            (exchange_of 10 (RequestError ''ECONNREFUSED'' 12)) = Resolved out \<and>
          \<not> success out \<and> responseTime out = 2) \<and>
        (\<forall>e. makeRequest URL_basic ?u ''GET'' Map.empty None
            (exchange_of 10 (RequestError ''ECONNREFUSED'' 12)) \<noteq> Rejected e) \<and>
        (\<exists>out. executeQuery ''SELECT 1'' [] (db_exchange_of 5 (GetConnectionThrows ''ETIMEDOUT'' 65))
            = Resolved out \<and> \<not> success out \<and> queryTime out = 60)"
    by (simp add: exchange_of_def db_exchange_of_def) blast
  from E [where x = "exchange_of 10 NoEvent"
            and dx = "db_exchange_of 5 (GetConnectionThrows ''ETIMEDOUT'' 65)"] p
  have d: "makeRequest URL_basic ?u ''GET'' Map.empty None (exchange_of 10 NoEvent) = Pending"
    by (simp add: exchange_of_def)
  from executor_settles [where URL_new = URL_basic and target = "''localhost:3000/my path''"
      and parsedUrl = "\<lparr>protocol = ''localhost:'', hostname = [], port = [],
          pathname = ''3000/my path'', search = []\<rparr>"
      and m = "''GET''" and h = Map.empty and b = None
      and x = "checked_exchange_of 10 (ResponseEnd 200 [] [''ok''] 60)"] URL_basic_opaque_path
  have e: "makeRequest URL_basic ''localhost:3000/my path'' ''GET'' Map.empty None
             (checked_exchange_of 10 (ResponseEnd 200 [] [''ok''] 60)) = Rejected ?t"
    by (simp add: checked_exchange_of_def request_options_of_def invalid_path_def)
  from executor_settles [where URL_new = URL_basic and target = "''example.com/api/health''"
      and m = "''GET''" and h = Map.empty and b = None
      and x = "exchange_of 10 (ResponseEnd 200 [] [''ok''] 60)"] URL_basic_no_scheme
  have f: "makeRequest URL_basic ''example.com/api/health'' ''GET'' Map.empty None
     (exchange_of 10 (ResponseEnd 200 [] [''ok''] 60)) = Rejected (TypeError ''Invalid URL'')"
    by blast
  from a b c d e f show ?thesis by blast
qed

section \<open>Sequence of a user's requests\<close>

text \<open>A schedule in which the second request waits for the first is in sequence.\<close>

lemma in_sequence_example:
  "in_sequence [] [RequestIssued 0 0, RequestSettled 0 0, DelayArmed 0 0 100,
                   RequestIssued 0 1, RequestSettled 0 1]"
  by simp

text \<open>
  Claim C2 does not hold of \<open>testEndpoint\<close>: with one user and two requests, both
  requests are issued before either settles, and the delay is armed only after the first
  has settled, with nothing waiting for it.
\<close>

theorem requests_issued_at_once:
  "testEndpoint_schedule 1 2 100 [(0, 0), (0, 1)] =
     [RequestIssued 0 0, RequestIssued 0 1, RequestSettled 0 0, DelayArmed 0 0 100,
      RequestSettled 0 1] \<and>
   \<not> in_sequence [] (testEndpoint_schedule 1 2 100 [(0, 0), (0, 1)])"
  by (simp add: testEndpoint_schedule_def launch_def after_settled_def upt_rec)

text \<open>
  The same holds for every number of users, every settling order and every delay, as soon
  as a user has two requests.
\<close>

lemma in_sequence_append_issued:
  assumes "RequestIssued user (Suc k) \<in> set es"
    and "\<forall>e \<in> set es. \<exists>u r. e = RequestIssued u r"
    and "(user, k) \<notin> set seen"
  shows "\<not> in_sequence seen (es @ rest)"
  using assms
proof (induction es)
  case Nil
  then show ?case by simp
next
  case (Cons e es)
  then show ?case by (cases e) auto
qed

lemma launch_issues_second_request:
  assumes "0 < users" and "2 \<le> perUser"
  shows "RequestIssued 0 (Suc 0) \<in> set (launch users perUser)"
proof -
  have "0 \<in> set [0..<users]" and "Suc 0 \<in> set [0..<perUser]"
    using assms by simp_all
  then show ?thesis unfolding launch_def by (simp add: image_iff)
qed

lemma never_in_sequence:
  assumes "0 < users" and "2 \<le> perUser"
  shows "\<not> in_sequence [] (testEndpoint_schedule users perUser delayBetweenRequests settle_order)"
  unfolding testEndpoint_schedule_def
  by (rule in_sequence_append_issued [OF launch_issues_second_request [OF assms]])
     (auto simp: launch_def)

end
